theory Spec2Isabelle
  imports Complex_Main "HOL-Library.Multiset"
begin

section \<open>JavaScript numbers\<close>

text \<open>
  The engine in \<^verbatim>\<open>supabase/functions/_shared/matching.ts\<close> computes with JavaScript
  numbers (binary64). A number is modelled as a finite value, one of the two infinities,
  or NaN. The range of binary64 is modelled: a result of addition, multiplication or
  division whose magnitude reaches \<open>2^1024 - 2^970\<close> is infinite, and one whose
  magnitude is at most \<open>2^-1075\<close> is zero, as rounding to nearest does. Between these
  bounds a finite result is the exact real: the rounding of the significand and the sign
  of zero are not modelled, so a value of the model can differ from the value of the code
  in its last binary digit. The evaluations below are at inputs where every intermediate
  value is a binary64 number, or end in a comparison or a rounding to one decimal that
  such a difference does not change. Everything else follows ECMAScript: NaN is
  absorbing, every comparison with NaN is false, \<open>0 / 0\<close> is NaN and \<open>x / 0\<close> is
  infinite.
\<close>

datatype number = Fin real | PInf | NInf | NaN

text \<open>The sign of a number other than NaN and zero, as a choice between the infinities.\<close>

definition inf_of_sign :: "bool \<Rightarrow> number" where
  "inf_of_sign positive = (if positive then PInf else NInf)"

text \<open>
  \<^verbatim>\<open>Number.MAX_VALUE\<close>, and the two bounds at which rounding to nearest leaves the
  finite, nonzero numbers: from \<open>overflow_bound\<close> on a magnitude rounds to infinity,
  up to \<open>underflow_bound\<close> it rounds to zero.
\<close>

definition max_finite :: real where
  "max_finite = 2 ^ 1024 - 2 ^ 971"

definition overflow_bound :: real where
  "overflow_bound = 2 ^ 1024 - 2 ^ 970"

definition underflow_bound :: real where
  "underflow_bound = 1 / 2 ^ 1075"

text \<open>The number that an arithmetic operation returns for the exact result \<open>r\<close>.\<close>

definition fin :: "real \<Rightarrow> number" where
  "fin r =
     (if overflow_bound \<le> \<bar>r\<bar> then inf_of_sign (0 < r)
      else if \<bar>r\<bar> \<le> underflow_bound then Fin 0
      else Fin r)"

fun num_neg :: "number \<Rightarrow> number" where
  "num_neg (Fin a) = Fin (- a)"
| "num_neg PInf = NInf"
| "num_neg NInf = PInf"
| "num_neg NaN = NaN"

fun num_add :: "number \<Rightarrow> number \<Rightarrow> number" where
  "num_add (Fin a) (Fin b) = fin (a + b)"
| "num_add (Fin a) PInf = PInf"
| "num_add (Fin a) NInf = NInf"
| "num_add PInf (Fin b) = PInf"
| "num_add PInf PInf = PInf"
| "num_add PInf NInf = NaN"
| "num_add NInf (Fin b) = NInf"
| "num_add NInf PInf = NaN"
| "num_add NInf NInf = NInf"
| "num_add NaN y = NaN"
| "num_add x NaN = NaN"

definition num_sub :: "number \<Rightarrow> number \<Rightarrow> number" where
  "num_sub x y = num_add x (num_neg y)"

fun num_mul :: "number \<Rightarrow> number \<Rightarrow> number" where
  "num_mul (Fin a) (Fin b) = fin (a * b)"
| "num_mul (Fin a) PInf = (if a = 0 then NaN else inf_of_sign (0 < a))"
| "num_mul (Fin a) NInf = (if a = 0 then NaN else inf_of_sign (a < 0))"
| "num_mul PInf (Fin b) = (if b = 0 then NaN else inf_of_sign (0 < b))"
| "num_mul PInf PInf = PInf"
| "num_mul PInf NInf = NInf"
| "num_mul NInf (Fin b) = (if b = 0 then NaN else inf_of_sign (b < 0))"
| "num_mul NInf PInf = NInf"
| "num_mul NInf NInf = PInf"
| "num_mul NaN y = NaN"
| "num_mul x NaN = NaN"

fun num_div :: "number \<Rightarrow> number \<Rightarrow> number" where
  "num_div (Fin a) (Fin b) =
     (if b = 0 then (if a = 0 then NaN else inf_of_sign (0 < a)) else fin (a / b))"
| "num_div (Fin a) PInf = Fin 0"
| "num_div (Fin a) NInf = Fin 0"
| "num_div PInf (Fin b) = inf_of_sign (0 \<le> b)"
| "num_div PInf PInf = NaN"
| "num_div PInf NInf = NaN"
| "num_div NInf (Fin b) = inf_of_sign (b < 0)"
| "num_div NInf PInf = NaN"
| "num_div NInf NInf = NaN"
| "num_div NaN y = NaN"
| "num_div x NaN = NaN"

text \<open>The relational operators \<^verbatim>\<open><\<close>, \<^verbatim>\<open>>\<close> and \<^verbatim>\<open>>=\<close>: false as soon as one side is NaN.\<close>

fun num_lt :: "number \<Rightarrow> number \<Rightarrow> bool" where
  "num_lt (Fin a) (Fin b) = (a < b)"
| "num_lt (Fin a) PInf = True"
| "num_lt (Fin a) NInf = False"
| "num_lt PInf y = False"
| "num_lt NInf (Fin b) = True"
| "num_lt NInf PInf = True"
| "num_lt NInf NInf = False"
| "num_lt NaN y = False"
| "num_lt x NaN = False"

definition num_gt :: "number \<Rightarrow> number \<Rightarrow> bool" where
  "num_gt x y = num_lt y x"

definition num_ge :: "number \<Rightarrow> number \<Rightarrow> bool" where
  "num_ge x y = (x \<noteq> NaN \<and> y \<noteq> NaN \<and> \<not> num_lt x y)"

text \<open>Strict equality \<^verbatim>\<open>===\<close> on numbers: NaN is not equal to anything, itself included.\<close>

definition num_eq :: "number \<Rightarrow> number \<Rightarrow> bool" where
  "num_eq x y = (x \<noteq> NaN \<and> y \<noteq> NaN \<and> x = y)"

text \<open>\<^verbatim>\<open>Math.abs\<close>, \<^verbatim>\<open>Math.max\<close>, \<^verbatim>\<open>Math.min\<close>, \<^verbatim>\<open>Math.sqrt\<close> and \<^verbatim>\<open>Math.round\<close>
  (nearest integer, a tie going up).\<close>

fun Math_abs :: "number \<Rightarrow> number" where
  "Math_abs (Fin a) = Fin \<bar>a\<bar>"
| "Math_abs PInf = PInf"
| "Math_abs NInf = PInf"
| "Math_abs NaN = NaN"

definition Math_max :: "number \<Rightarrow> number \<Rightarrow> number" where
  "Math_max x y = (if x = NaN \<or> y = NaN then NaN else if num_lt x y then y else x)"

definition Math_min :: "number \<Rightarrow> number \<Rightarrow> number" where
  "Math_min x y = (if x = NaN \<or> y = NaN then NaN else if num_lt y x then y else x)"

fun Math_sqrt :: "number \<Rightarrow> number" where
  "Math_sqrt (Fin a) = (if a < 0 then NaN else Fin (sqrt a))"
| "Math_sqrt PInf = PInf"
| "Math_sqrt NInf = NaN"
| "Math_sqrt NaN = NaN"

fun Math_round :: "number \<Rightarrow> number" where
  "Math_round (Fin a) = Fin (of_int \<lfloor>a + 1 / 2\<rfloor>)"
| "Math_round PInf = PInf"
| "Math_round NInf = NInf"
| "Math_round NaN = NaN"

section \<open>Data model\<close>

text \<open>
  A fruit has an optional identifier, a category, seven attributes (each of them
  \<^verbatim>\<open>null\<close> when unknown) and seven optional preferences. \<open>None\<close> stands for
  \<^verbatim>\<open>null\<close> and \<^verbatim>\<open>undefined\<close>, which the scorers never tell apart.
\<close>

datatype FruitType = Apple | Orange

datatype ShineFactor = Dull | Neutral | Shiny | ExtraShiny

fun shineFactor_string :: "ShineFactor \<Rightarrow> string" where
  "shineFactor_string Dull = ''dull''"
| "shineFactor_string Neutral = ''neutral''"
| "shineFactor_string Shiny = ''shiny''"
| "shineFactor_string ExtraShiny = ''extraShiny''"

record FruitAttributes =
  size_attr :: "number option"
  weight_attr :: "number option"
  hasStem_attr :: "bool option"
  hasLeaf_attr :: "bool option"
  hasWorm_attr :: "bool option"
  shineFactor_attr :: "ShineFactor option"
  hasChemicals_attr :: "bool option"

record NumericPreference =
  pref_min :: "number option"
  pref_max :: "number option"

text \<open>The preference on the shine factor is one string or an array of strings.\<close>

datatype EnumPreference = Single string | Several "string list"

record FruitPreferences =
  size_pref :: "NumericPreference option"
  weight_pref :: "NumericPreference option"
  hasStem_pref :: "bool option"
  hasLeaf_pref :: "bool option"
  hasWorm_pref :: "bool option"
  shineFactor_pref :: "EnumPreference option"
  hasChemicals_pref :: "bool option"

record Fruit =
  fruit_id :: "string option"
  fruit_type :: FruitType
  attributes :: FruitAttributes
  preferences :: FruitPreferences

record Match =
  fruit :: Fruit
  fruitId :: string
  seekerToFruitScore :: number
  fruitToSeekerScore :: number
  mutualScore :: number

section \<open>Attribute scorers\<close>

text \<open>
  \<^verbatim>\<open>scoreNumericAttribute\<close>: the checks are in the order of the source. The last
  \<open>Fin 0\<close> is the source's final \<^verbatim>\<open>return 0\<close>, which no input reaches.
\<close>

definition scoreNumericAttribute :: "NumericPreference option \<Rightarrow> number option \<Rightarrow> number" where
  "scoreNumericAttribute preference actualValue =
     (case preference of
        None \<Rightarrow> Fin 0
      | Some p \<Rightarrow>
          if pref_min p = None \<and> pref_max p = None then Fin 0
          else (case actualValue of
                  None \<Rightarrow> Fin 0
                | Some v \<Rightarrow>
                    if pref_min p \<noteq> None \<and> num_lt v (the (pref_min p)) then Fin (- 20)
                    else if pref_max p \<noteq> None \<and> num_gt v (the (pref_max p)) then Fin (- 20)
                    else if pref_min p \<noteq> None \<and> pref_max p \<noteq> None then
                      (let lo = the (pref_min p); hi = the (pref_max p);
                           rangeCenter = num_div (num_add lo hi) (Fin 2);
                           rangeWidth = num_sub hi lo;
                           distance = Math_abs (num_sub v rangeCenter);
                           proximity = num_sub (Fin 1) (num_div distance (num_div rangeWidth (Fin 2)))
                       in num_mul (Fin 15) (Math_max (Fin 0) proximity))
                    else if pref_min p \<noteq> None then
                      (let distance = num_sub v (the (pref_min p));
                           proximity = Math_max (Fin 0) (num_sub (Fin 1) (num_div distance (Fin 5)))
                       in num_mul (Fin 15) proximity)
                    else if pref_max p \<noteq> None then
                      (let distance = num_sub (the (pref_max p)) v;
                           proximity = Math_max (Fin 0) (num_sub (Fin 1) (num_div distance (Fin 5)))
                       in num_mul (Fin 15) proximity)
                    else Fin 0))"

definition scoreBooleanAttribute :: "bool option \<Rightarrow> bool option \<Rightarrow> number" where
  "scoreBooleanAttribute preference actualValue =
     (case preference of
        None \<Rightarrow> Fin 0
      | Some p \<Rightarrow>
          (case actualValue of
             None \<Rightarrow> Fin 0
           | Some v \<Rightarrow> if v = p then Fin 15 else Fin (- 25)))"

text \<open>
  Truthiness of a shine-factor preference: \<^verbatim>\<open>undefined\<close> and the empty string are
  falsy, every array is truthy, the empty one too.
\<close>

fun truthy_pref :: "EnumPreference option \<Rightarrow> bool" where
  "truthy_pref None = False"
| "truthy_pref (Some (Single s)) = (s \<noteq> [])"
| "truthy_pref (Some (Several vs)) = True"

definition scoreEnumAttribute :: "EnumPreference option \<Rightarrow> string option \<Rightarrow> number" where
  "scoreEnumAttribute preference actualValue =
     (if \<not> truthy_pref preference then Fin 0
      else (case actualValue of
              None \<Rightarrow> Fin 0
            | Some v \<Rightarrow>
                (let acceptableValues = (case the preference of Several vs \<Rightarrow> vs | Single s \<Rightarrow> [s])
                 in if v \<in> set acceptableValues then Fin 12 else Fin (- 15))))"

section \<open>Directional and mutual score\<close>

definition calculateCompatibilityScore :: "Fruit \<Rightarrow> Fruit \<Rightarrow> number" where
  "calculateCompatibilityScore seeker candidate =
     (let score = Fin 50;
          seekerPrefs = preferences seeker;
          candidateAttrs = attributes candidate;
          score = (if size_pref seekerPrefs \<noteq> None
                   then num_add score (scoreNumericAttribute (size_pref seekerPrefs) (size_attr candidateAttrs))
                   else score);
          score = (if weight_pref seekerPrefs \<noteq> None
                   then num_add score (scoreNumericAttribute (weight_pref seekerPrefs) (weight_attr candidateAttrs))
                   else score);
          score = (if hasStem_pref seekerPrefs \<noteq> None
                   then num_add score (scoreBooleanAttribute (hasStem_pref seekerPrefs) (hasStem_attr candidateAttrs))
                   else score);
          score = (if hasLeaf_pref seekerPrefs \<noteq> None
                   then num_add score (scoreBooleanAttribute (hasLeaf_pref seekerPrefs) (hasLeaf_attr candidateAttrs))
                   else score);
          score = (if hasWorm_pref seekerPrefs \<noteq> None
                   then num_add score (scoreBooleanAttribute (hasWorm_pref seekerPrefs) (hasWorm_attr candidateAttrs))
                   else score);
          score = (if hasChemicals_pref seekerPrefs \<noteq> None
                   then num_add score (scoreBooleanAttribute (hasChemicals_pref seekerPrefs) (hasChemicals_attr candidateAttrs))
                   else score);
          score = (if truthy_pref (shineFactor_pref seekerPrefs)
                   then num_add score (scoreEnumAttribute (shineFactor_pref seekerPrefs)
                                         (map_option shineFactor_string (shineFactor_attr candidateAttrs)))
                   else score)
      in Math_max (Fin 0) (Math_min (Fin 100) score))"

definition calculateMutualScore :: "Fruit \<Rightarrow> Fruit \<Rightarrow> number" where
  "calculateMutualScore fruitA fruitB =
     (let aToB = calculateCompatibilityScore fruitA fruitB;
          bToA = calculateCompatibilityScore fruitB fruitA;
          mutualScore = Math_sqrt (num_mul aToB bToA)
      in num_div (Math_round (num_mul mutualScore (Fin 10))) (Fin 10))"

section \<open>Ranking\<close>

text \<open>
  \<^verbatim>\<open>Array.prototype.sort\<close> with a comparison function, as V8 (the engine of Deno)
  runs it on an array of fewer than 64 elements. A comparison result that is NaN counts
  as 0, so the only test on a result, \<^verbatim>\<open>order < 0\<close>, is false for it. The sort finds
  the run at the start of the array: the elements up to the first one that breaks the
  direction of the first two, reversed when that direction is strictly descending. Then
  it inserts every remaining element into the sorted part, at the place a binary search
  finds. An array of 64 or more elements is cut into several such runs that are merged;
  the merge is not modelled. For such an array the model still returns the result of V8
  when the comparison function is consistent, because a stable sort has one result then.
\<close>

definition sorts_before :: "('a \<Rightarrow> 'a \<Rightarrow> number) \<Rightarrow> 'a \<Rightarrow> 'a \<Rightarrow> bool" where
  "sorts_before comparefn x y = num_lt (comparefn x y) (Fin 0)"

fun extend_run :: "bool \<Rightarrow> ('a \<Rightarrow> 'a \<Rightarrow> number) \<Rightarrow> 'a \<Rightarrow> 'a list \<Rightarrow> 'a list \<times> 'a list" where
  "extend_run isDescending comparefn previousElement [] = ([], [])"
| "extend_run isDescending comparefn previousElement (currentElement # rest) =
     (if sorts_before comparefn currentElement previousElement = isDescending
      then (let (run, remaining) = extend_run isDescending comparefn currentElement rest
            in (currentElement # run, remaining))
      else ([], currentElement # rest))"

fun count_and_make_run :: "('a \<Rightarrow> 'a \<Rightarrow> number) \<Rightarrow> 'a list \<Rightarrow> 'a list \<times> 'a list" where
  "count_and_make_run comparefn [] = ([], [])"
| "count_and_make_run comparefn [x] = ([x], [])"
| "count_and_make_run comparefn (elementHigh # elementLow # rest) =
     (let isDescending = sorts_before comparefn elementLow elementHigh;
          (run, remaining) = extend_run isDescending comparefn elementLow rest;
          whole = elementHigh # elementLow # run
      in (if isDescending then rev whole else whole, remaining))"

function insertion_point :: "('a \<Rightarrow> 'a \<Rightarrow> number) \<Rightarrow> 'a \<Rightarrow> 'a list \<Rightarrow> nat \<Rightarrow> nat \<Rightarrow> nat" where
  "insertion_point comparefn pivot xs left right =
     (if left < right then
        (let mid = left + (right - left) div 2
         in if sorts_before comparefn pivot (xs ! mid)
            then insertion_point comparefn pivot xs left mid
            else insertion_point comparefn pivot xs (mid + 1) right)
      else left)"
  by pat_completeness auto
termination
  by (relation "measure (\<lambda>(comparefn, pivot, xs, left, right). right - left)") auto

declare insertion_point.simps [simp del]

definition binary_insert :: "('a \<Rightarrow> 'a \<Rightarrow> number) \<Rightarrow> 'a list \<Rightarrow> 'a \<Rightarrow> 'a list" where
  "binary_insert comparefn sorted_part pivot =
     (let left = insertion_point comparefn pivot sorted_part 0 (length sorted_part)
      in take left sorted_part @ pivot # drop left sorted_part)"

definition array_sort :: "('a \<Rightarrow> 'a \<Rightarrow> number) \<Rightarrow> 'a list \<Rightarrow> 'a list" where
  "array_sort comparefn xs =
     (let (run, remaining) = count_and_make_run comparefn xs
      in foldl (binary_insert comparefn) run remaining)"

text \<open>
  \<^verbatim>\<open>slice(0, stop)\<close> on an array: a negative \<open>stop\<close> counts from the end of the
  array.
\<close>

definition array_slice0 :: "'a list \<Rightarrow> int \<Rightarrow> 'a list" where
  "array_slice0 xs stop =
     (if stop < 0 then take (nat (int (length xs) + stop)) xs else take (nat stop) xs)"

text \<open>The record that \<^verbatim>\<open>findTopMatches\<close> builds for one candidate.\<close>

definition scoredMatch :: "Fruit \<Rightarrow> Fruit \<Rightarrow> Match" where
  "scoredMatch seeker candidate =
     (let seekerToFruitScore = calculateCompatibilityScore seeker candidate;
          fruitToSeekerScore = calculateCompatibilityScore candidate seeker;
          mutualScore = Math_sqrt (num_mul seekerToFruitScore fruitToSeekerScore)
      in \<lparr> fruit = candidate,
           fruitId = (case fruit_id candidate of
                        None \<Rightarrow> ''unknown''
                      | Some s \<Rightarrow> if s = [] then ''unknown'' else s),
           seekerToFruitScore = num_div (Math_round (num_mul seekerToFruitScore (Fin 10))) (Fin 10),
           fruitToSeekerScore = num_div (Math_round (num_mul fruitToSeekerScore (Fin 10))) (Fin 10),
           mutualScore = num_div (Math_round (num_mul mutualScore (Fin 10))) (Fin 10) \<rparr>)"

text \<open>
  The comparison function \<^verbatim>\<open>(a, b) => b.mutualScore - a.mutualScore\<close>, and the ranker
  itself. The limit is an integer; a caller that passes none gets 5.
\<close>

definition byMutualScore :: "Match \<Rightarrow> Match \<Rightarrow> number" where
  "byMutualScore a b = num_sub (mutualScore b) (mutualScore a)"

definition findTopMatches :: "Fruit \<Rightarrow> Fruit list \<Rightarrow> int \<Rightarrow> Match list" where
  "findTopMatches seeker candidates limit =
     (let scoredMatches = map (scoredMatch seeker) candidates;
          sortedMatches = array_sort byMutualScore scoredMatches
      in array_slice0 sortedMatches limit)"

section \<open>Notions used in the statements\<close>

text \<open>A score is in range when it passes both \<^verbatim>\<open>score >= 0\<close> and \<^verbatim>\<open>100 >= score\<close>.\<close>

definition in_score_range :: "number \<Rightarrow> bool" where
  "in_score_range x = (num_ge x (Fin 0) \<and> num_ge (Fin 100) x)"

text \<open>
  The values that arithmetic returns: NaN, the infinities, zero, and the finite numbers
  whose magnitude lies strictly between the two bounds.
\<close>

definition in_range :: "number \<Rightarrow> bool" where
  "in_range x =
     (case x of
        Fin r \<Rightarrow> r = 0 \<or> (underflow_bound < \<bar>r\<bar> \<and> \<bar>r\<bar> < overflow_bound)
      | _ \<Rightarrow> True)"

text \<open>
  \<^verbatim>\<open>Number.isFinite\<close>; the finite numbers of binary64, which do not exceed
  \<^verbatim>\<open>Number.MAX_VALUE\<close> in magnitude, lifted to optional values and to numeric
  preferences (an absent value or bound passes); and the numbers that are not negative.
\<close>

definition is_finite :: "number \<Rightarrow> bool" where
  "is_finite x = (case x of Fin r \<Rightarrow> True | _ \<Rightarrow> False)"

definition finite_double :: "number \<Rightarrow> bool" where
  "finite_double x = (case x of Fin r \<Rightarrow> \<bar>r\<bar> \<le> max_finite | _ \<Rightarrow> False)"

definition finite_value :: "number option \<Rightarrow> bool" where
  "finite_value v = (case v of None \<Rightarrow> True | Some x \<Rightarrow> finite_double x)"

definition finite_preference :: "NumericPreference option \<Rightarrow> bool" where
  "finite_preference preference =
     (case preference of None \<Rightarrow> True | Some p \<Rightarrow> finite_value (pref_min p) \<and> finite_value (pref_max p))"

definition nonnegative :: "number \<Rightarrow> bool" where
  "nonnegative x = (case x of Fin r \<Rightarrow> 0 \<le> r | PInf \<Rightarrow> True | _ \<Rightarrow> False)"

text \<open>
  A numeric preference is wide when its bounds, if both are given, are more than
  \<open>2^-1074\<close> apart (half their distance is not zero then) or in the wrong order.
\<close>

definition wide_preference :: "NumericPreference option \<Rightarrow> bool" where
  "wide_preference preference =
     (case preference of
        None \<Rightarrow> True
      | Some p \<Rightarrow>
          (case (pref_min p, pref_max p) of
             (Some (Fin lo), Some (Fin hi)) \<Rightarrow> hi < lo \<or> 2 * underflow_bound < hi - lo
           | _ \<Rightarrow> True))"

text \<open>
  The numbers \<open>m\<close> for which \<open>m + m\<close> does not overflow: NaN, the infinities, and
  the finite numbers with \<open>2 * \<bar>m\<bar>\<close> at most \<^verbatim>\<open>Number.MAX_VALUE\<close>, which are the
  binary64 numbers of magnitude below \<open>2^1023\<close>.
\<close>

definition doubles_finitely :: "number \<Rightarrow> bool" where
  "doubles_finitely m = (case m of Fin r \<Rightarrow> 2 * \<bar>r\<bar> \<le> max_finite | _ \<Rightarrow> True)"

text \<open>
  A numeric preference is hit at its point when both bounds are present and equal, the
  candidate's value is that very number, and the number doubles finitely.
\<close>

definition point_hit :: "NumericPreference option \<Rightarrow> number option \<Rightarrow> bool" where
  "point_hit preference actualValue =
     (case preference of
        None \<Rightarrow> False
      | Some p \<Rightarrow>
          (case pref_min p of
             None \<Rightarrow> False
           | Some lo \<Rightarrow> pref_max p = Some lo \<and> actualValue = Some lo \<and> doubles_finitely lo))"

text \<open>The mutual score of a match as a real, for matches whose score is a finite number.\<close>

definition score_value :: "Match \<Rightarrow> real" where
  "score_value m = (case mutualScore m of Fin r \<Rightarrow> r | _ \<Rightarrow> 0)"

section \<open>Sample fruits\<close>

text \<open>
  The first five fruits are those of the repository's tests; the others exercise a
  preference whose lower and upper bound coincide.
\<close>

definition emptyPreferences :: FruitPreferences where
  "emptyPreferences =
     \<lparr> size_pref = None, weight_pref = None, hasStem_pref = None, hasLeaf_pref = None,
       hasWorm_pref = None, shineFactor_pref = None, hasChemicals_pref = None \<rparr>"

definition unknownAttributes :: FruitAttributes where
  "unknownAttributes =
     \<lparr> size_attr = None, weight_attr = None, hasStem_attr = None, hasLeaf_attr = None,
       hasWorm_attr = None, shineFactor_attr = None, hasChemicals_attr = None \<rparr>"

definition appleNoPreferences :: Fruit where
  "appleNoPreferences =
     \<lparr> fruit_id = Some ''fruits:apple1'', fruit_type = Apple,
       attributes = \<lparr> size_attr = Some (Fin 7), weight_attr = Some (Fin 180),
                      hasStem_attr = Some True, hasLeaf_attr = Some False, hasWorm_attr = Some False,
                      shineFactor_attr = Some Shiny, hasChemicals_attr = Some False \<rparr>,
       preferences = emptyPreferences \<rparr>"

definition orangePerfectMatch :: Fruit where
  "orangePerfectMatch =
     \<lparr> fruit_id = Some ''fruits:orange1'', fruit_type = Orange,
       attributes = \<lparr> size_attr = Some (Fin (15 / 2)), weight_attr = Some (Fin 200),
                      hasStem_attr = Some False, hasLeaf_attr = Some True, hasWorm_attr = Some False,
                      shineFactor_attr = Some Shiny, hasChemicals_attr = Some False \<rparr>,
       preferences = emptyPreferences \<rparr>"

definition appleWithPreferences :: Fruit where
  "appleWithPreferences =
     \<lparr> fruit_id = Some ''fruits:apple2'', fruit_type = Apple,
       attributes = \<lparr> size_attr = Some (Fin 6), weight_attr = Some (Fin 150),
                      hasStem_attr = Some True, hasLeaf_attr = Some True, hasWorm_attr = Some False,
                      shineFactor_attr = Some Neutral, hasChemicals_attr = Some False \<rparr>,
       preferences = emptyPreferences
         \<lparr> size_pref := Some \<lparr> pref_min = Some (Fin 7), pref_max = Some (Fin 10) \<rparr>,
           weight_pref := Some \<lparr> pref_min = Some (Fin 180), pref_max = Some (Fin 220) \<rparr>,
           hasWorm_pref := Some False,
           shineFactor_pref := Some (Several [''shiny'', ''extraShiny'']) \<rparr> \<rparr>"

definition orangeGoodMatch :: Fruit where
  "orangeGoodMatch =
     \<lparr> fruit_id = Some ''fruits:orange2'', fruit_type = Orange,
       attributes = \<lparr> size_attr = Some (Fin 8), weight_attr = Some (Fin 195),
                      hasStem_attr = Some False, hasLeaf_attr = Some False, hasWorm_attr = Some False,
                      shineFactor_attr = Some Shiny, hasChemicals_attr = Some False \<rparr>,
       preferences = emptyPreferences \<lparr> hasWorm_pref := Some False, hasChemicals_pref := Some False \<rparr> \<rparr>"

definition orangePoorMatch :: Fruit where
  "orangePoorMatch =
     \<lparr> fruit_id = Some ''fruits:orange3'', fruit_type = Orange,
       attributes = \<lparr> size_attr = Some (Fin 4), weight_attr = Some (Fin 100),
                      hasStem_attr = Some True, hasLeaf_attr = Some True, hasWorm_attr = Some True,
                      shineFactor_attr = Some Dull, hasChemicals_attr = Some True \<rparr>,
       preferences = emptyPreferences \<lparr> hasWorm_pref := Some True \<rparr> \<rparr>"

definition exactSeeker :: Fruit where
  "exactSeeker =
     \<lparr> fruit_id = Some ''fruits:apple9'', fruit_type = Apple,
       attributes = \<lparr> size_attr = Some (Fin 6), weight_attr = Some (Fin 150),
                      hasStem_attr = Some False, hasLeaf_attr = Some False, hasWorm_attr = Some False,
                      shineFactor_attr = Some Neutral, hasChemicals_attr = Some False \<rparr>,
       preferences = emptyPreferences
         \<lparr> size_pref := Some \<lparr> pref_min = Some (Fin 5), pref_max = Some (Fin 5) \<rparr>,
           hasStem_pref := Some True \<rparr> \<rparr>"

definition orangeAtPoint :: Fruit where
  "orangeAtPoint =
     \<lparr> fruit_id = Some ''fruits:orange7'', fruit_type = Orange,
       attributes = unknownAttributes \<lparr> size_attr := Some (Fin 5) \<rparr>,
       preferences = emptyPreferences \<rparr>"

definition orangeStemless :: Fruit where
  "orangeStemless =
     \<lparr> fruit_id = Some ''fruits:orange8'', fruit_type = Orange,
       attributes = unknownAttributes \<lparr> hasStem_attr := Some False \<rparr>,
       preferences = emptyPreferences \<lparr> hasStem_pref := Some True \<rparr> \<rparr>"

definition orangeUnknown :: Fruit where
  "orangeUnknown =
     \<lparr> fruit_id = None, fruit_type = Orange,
       attributes = unknownAttributes,
       preferences = emptyPreferences \<rparr>"

definition orangeDemanding :: Fruit where
  "orangeDemanding =
     \<lparr> fruit_id = Some ''fruits:orange9'', fruit_type = Orange,
       attributes = unknownAttributes \<lparr> size_attr := Some (Fin 5) \<rparr>,
       preferences = emptyPreferences \<lparr> hasStem_pref := Some True, hasLeaf_pref := Some True \<rparr> \<rparr>"

definition orangeHopeless :: Fruit where
  "orangeHopeless =
     \<lparr> fruit_id = Some ''fruits:orange11'', fruit_type = Orange,
       attributes = unknownAttributes,
       preferences = emptyPreferences \<lparr> hasStem_pref := Some True, hasLeaf_pref := Some True \<rparr> \<rparr>"



section \<open>Facts about numbers\<close>

lemma bounds_order:
  "0 < underflow_bound" "underflow_bound < 1 / 1000000" "1000000 < max_finite"
  "max_finite < overflow_bound" "underflow_bound < overflow_bound"
  by (simp_all add: underflow_bound_def overflow_bound_def max_finite_def)

lemma fin_zero [simp]: "fin 0 = Fin 0"
  using bounds_order by (simp add: fin_def)

lemma fin_moderate [simp]: "1 / 1000000 \<le> \<bar>r\<bar> \<Longrightarrow> \<bar>r\<bar> \<le> 1000000 \<Longrightarrow> fin r = Fin r"
  using bounds_order by (simp add: fin_def)

lemma fin_cases [case_names overflow underflow exact]:
  obtains "overflow_bound \<le> \<bar>r\<bar>" "fin r = inf_of_sign (0 < r)"
  | "\<bar>r\<bar> \<le> underflow_bound" "fin r = Fin 0"
  | "underflow_bound < \<bar>r\<bar>" "\<bar>r\<bar> < overflow_bound" "fin r = Fin r"
  by (cases "overflow_bound \<le> \<bar>r\<bar>"; cases "\<bar>r\<bar> \<le> underflow_bound") (auto simp: fin_def)

lemma fin_nonneg:
  assumes "0 \<le> r" "r \<le> 1000000"
  obtains c where "fin r = Fin c" "0 \<le> c" "c \<le> r"
  using assms bounds_order by (cases r rule: fin_cases) auto

lemma fin_unit:
  assumes "0 \<le> r" "r \<le> B" "B \<le> 1000000"
  shows "\<exists>c. fin r = Fin c \<and> 0 \<le> c \<and> c \<le> B"
proof -
  have "r \<le> 1000000" using assms by simp
  with assms(1) obtain c where "fin r = Fin c" "0 \<le> c" "c \<le> r"
    by (rule fin_nonneg)
  then show ?thesis using assms(2) by auto
qed

lemma in_range_fin [simp]: "in_range (fin r)"
  by (cases r rule: fin_cases) (auto simp: in_range_def inf_of_sign_def)

lemma in_range_others [simp]: "in_range NaN" "in_range PInf" "in_range NInf"
  by (simp_all add: in_range_def)

lemma in_range_num_add [simp]: "in_range (num_add x y)"
  by (cases x; cases y) simp_all

lemma in_range_50 [simp]: "in_range (Fin 50)"
  using bounds_order by (simp add: in_range_def)

lemma fin_in_range: "in_range (Fin r) \<Longrightarrow> fin r = Fin r"
  using bounds_order by (auto simp: in_range_def fin_def)

lemma num_add_NaN_right [simp]: "num_add x NaN = NaN"
  by (cases x) simp_all

lemma num_add_zero_right: "in_range x \<Longrightarrow> num_add x (Fin 0) = x"
  by (cases x) (simp_all add: fin_in_range)

lemma num_sub_NaN [simp]: "num_sub x NaN = NaN" "num_sub NaN y = NaN"
  by (simp_all add: num_sub_def)

lemma num_mul_NaN_right [simp]: "num_mul x NaN = NaN"
  by (cases x) simp_all

lemma num_mul_commute: "num_mul x y = num_mul y x"
  by (cases x; cases y) (simp_all add: mult.commute)

lemma Math_max_NaN [simp]: "Math_max x NaN = NaN" "Math_max NaN y = NaN"
  by (simp_all add: Math_max_def)

lemma Math_min_NaN [simp]: "Math_min x NaN = NaN" "Math_min NaN y = NaN"
  by (simp_all add: Math_min_def)

lemma Math_max_Fin: "Math_max (Fin a) (Fin b) = Fin (max a b)"
  by (simp add: Math_max_def max_def)

lemma Math_min_Fin: "Math_min (Fin a) (Fin b) = Fin (min a b)"
  by (simp add: Math_min_def min_def)

lemma is_finite_iff: "is_finite x \<longleftrightarrow> (\<exists>r. x = Fin r)"
  by (cases x) (simp_all add: is_finite_def)

lemma not_NaN_fin: "fin r \<noteq> NaN"
  by (cases r rule: fin_cases) (auto simp: inf_of_sign_def)

lemma nonnegative_cases:
  assumes "nonnegative z"
  obtains "z = PInf" | q where "z = Fin q" "0 \<le> q"
  using assms by (cases z) (auto simp: nonnegative_def)

lemma nonnegative_fin: "0 \<le> r \<Longrightarrow> nonnegative (fin r)"
  by (cases r rule: fin_cases) (auto simp: nonnegative_def inf_of_sign_def)

lemma nonnegative_abs: "x \<noteq> NaN \<Longrightarrow> nonnegative (Math_abs x)"
  by (cases x) (simp_all add: nonnegative_def)

lemma nonnegative_fifth: "nonnegative x \<Longrightarrow> nonnegative (num_div x (Fin 5))"
  by (cases x rule: nonnegative_cases) (auto simp: nonnegative_fin, simp add: nonnegative_def inf_of_sign_def)

lemma nonnegative_difference: "a \<le> b \<Longrightarrow> nonnegative (num_sub (Fin b) (Fin a))"
  by (simp add: num_sub_def nonnegative_fin)

text \<open>
  The clamp \<^verbatim>\<open>Math.max(0, Math.min(100, score))\<close> returns NaN for NaN and a number in
  [0, 100] for everything else.
\<close>

lemma in_score_range_Fin [simp]: "in_score_range (Fin r) = (0 \<le> r \<and> r \<le> 100)"
  by (auto simp: in_score_range_def num_ge_def)

lemma in_score_range_other [simp]: "\<not> in_score_range NaN" "\<not> in_score_range PInf" "\<not> in_score_range NInf"
  by (simp_all add: in_score_range_def num_ge_def)

lemma clamp_cases: "Math_max (Fin 0) (Math_min (Fin 100) x) = NaN \<or> in_score_range (Math_max (Fin 0) (Math_min (Fin 100) x))"
  by (cases x) (auto simp: Math_max_def Math_min_def)

lemma clamp_finite: "is_finite x \<Longrightarrow> in_score_range (Math_max (Fin 0) (Math_min (Fin 100) x))"
  by (auto simp: is_finite_iff Math_max_Fin Math_min_Fin)

text \<open>
  Rounding to one decimal, and the geometric mean of two scores.
\<close>

lemma sqrt_square_nonneg: "0 \<le> x \<Longrightarrow> sqrt (x * x) = x"
  by simp

lemma round1_in_range:
  assumes "0 \<le> c" "c \<le> 100"
  shows "in_score_range (num_div (Math_round (num_mul (Fin c) (Fin 10))) (Fin 10))"
proof -
  have "0 \<le> c * 10" "c * 10 \<le> 1000" using assms by simp_all
  then obtain d where d: "fin (c * 10) = Fin d" "0 \<le> d" "d \<le> 1000"
    using fin_unit [of "c * 10" 1000] by auto
  have "0 \<le> \<lfloor>d + 1 / 2\<rfloor>" "\<lfloor>d + 1 / 2\<rfloor> \<le> 1000" using d by linarith+
  then have "0 \<le> (of_int \<lfloor>d + 1 / 2\<rfloor> :: real) / 10" "(of_int \<lfloor>d + 1 / 2\<rfloor> :: real) / 10 \<le> 100"
    by simp_all
  then obtain e where e: "fin (of_int \<lfloor>d + 1 / 2\<rfloor> / 10) = Fin e" "0 \<le> e" "e \<le> 100"
    using fin_unit [of "of_int \<lfloor>d + 1 / 2\<rfloor> / 10" 100] by auto
  show ?thesis
    by (simp add: d e)
qed

lemma mutual_of_numbers:
  assumes "in_score_range x" "in_score_range y"
  shows "in_score_range (num_div (Math_round (num_mul (Math_sqrt (num_mul x y)) (Fin 10))) (Fin 10))"
proof -
  obtain a b where ab: "x = Fin a" "y = Fin b" "0 \<le> a" "a \<le> 100" "0 \<le> b" "b \<le> 100"
    using assms by (cases x; cases y) auto
  have "a * b \<le> 100 * 100" using ab by (intro mult_mono) simp_all
  moreover have "0 \<le> a * b" using ab by simp
  ultimately obtain c where c: "fin (a * b) = Fin c" "0 \<le> c" "c \<le> 10000"
    using fin_unit [of "a * b" 10000] by auto
  have "sqrt c \<le> sqrt (100 * 100)" using c by (simp only: real_sqrt_le_iff)
  then have s: "0 \<le> sqrt c" "sqrt c \<le> 100" using c by simp_all
  have "Math_sqrt (num_mul x y) = Fin (sqrt c)"
    using c by (simp add: ab not_less)
  then show ?thesis
    using round1_in_range [OF s] by simp
qed

lemma mutual_of_range:
  assumes "x = NaN \<or> in_score_range x" "y = NaN \<or> in_score_range y"
  shows "num_div (Math_round (num_mul (Math_sqrt (num_mul x y)) (Fin 10))) (Fin 10) = NaN
       \<or> in_score_range (num_div (Math_round (num_mul (Math_sqrt (num_mul x y)) (Fin 10))) (Fin 10))"
proof (cases "x = NaN \<or> y = NaN")
  case True
  then show ?thesis by auto
next
  case False
  then show ?thesis using assms mutual_of_numbers [of x y] by simp
qed

lemma round1_small:
  "0 \<le> n \<Longrightarrow> n \<le> 100 \<Longrightarrow>
   num_div (Math_round (num_mul (Fin (of_int n)) (Fin 10))) (Fin 10) = Fin (of_int n)"
proof -
  assume n: "0 \<le> n" "n \<le> 100"
  show ?thesis
  proof (cases "n = 0")
    case True
    then show ?thesis by simp
  next
    case False
    then have "1 \<le> n" using n by simp
    then have m: "(1::real) \<le> of_int n" "(of_int n :: real) \<le> 100" using n by simp_all
    have a: "fin (of_int n * 10) = Fin (of_int n * 10)"
      using m by (intro fin_moderate) simp_all
    have "\<lfloor>(of_int n :: real) * 10 + 1 / 2\<rfloor> = n * 10" by linarith
    moreover have "fin (of_int (n * 10) / 10) = Fin (of_int n)"
      using m fin_moderate [of "of_int n"] by simp
    ultimately show ?thesis by (simp add: a)
  qed
qed

lemma mutual_50: "num_div (Math_round (num_mul (Math_sqrt (num_mul (Fin 50) (Fin 50))) (Fin 10))) (Fin 10) = Fin 50"
proof -
  have "sqrt (50 * 50) = (50::real)" by (rule sqrt_square_nonneg) simp
  then have s: "sqrt 2500 = (50::real)" by simp
  show ?thesis using round1_small [of 50] by (simp add: s)
qed

lemma mutual_25: "num_div (Math_round (num_mul (Math_sqrt (num_mul (Fin 25) (Fin 25))) (Fin 10))) (Fin 10) = Fin 25"
proof -
  have "sqrt (25 * 25) = (25::real)" by (rule sqrt_square_nonneg) simp
  then have s: "sqrt 625 = (25::real)" by simp
  show ?thesis using round1_small [of 25] by (simp add: s)
qed

section \<open>The attribute scorers\<close>

lemma scoreNumericAttribute_unknown: "scoreNumericAttribute p None = Fin 0"
  by (simp add: scoreNumericAttribute_def split: option.split)

lemma scoreBooleanAttribute_unknown: "scoreBooleanAttribute b None = Fin 0"
  by (simp add: scoreBooleanAttribute_def split: option.split)

lemma scoreEnumAttribute_unknown: "scoreEnumAttribute e None = Fin 0"
  by (simp add: scoreEnumAttribute_def)

lemmas scorer_unknown = scoreNumericAttribute_unknown scoreBooleanAttribute_unknown
  scoreEnumAttribute_unknown

text \<open>
  Claim C10. An empty array as shine-factor preference is truthy and accepts nothing:
  against every known attribute value the enum scorer returns -15, where an absent
  preference returns 0.
\<close>

theorem empty_array_preference_is_active:
  "truthy_pref (Some (Several []))
   \<and> scoreEnumAttribute (Some (Several [])) (Some v) = Fin (- 15)
   \<and> scoreEnumAttribute None (Some v) = Fin 0"
  by (simp add: scoreEnumAttribute_def)

subsection \<open>The numeric scorer\<close>

lemma point_distance:
  assumes "2 * \<bar>r\<bar> \<le> max_finite"
  shows "Math_abs (num_sub (Fin r) (num_div (num_add (Fin r) (Fin r)) (Fin 2))) = Fin 0"
proof -
  have no: "\<not> overflow_bound \<le> \<bar>r + r\<bar>" "\<not> overflow_bound \<le> \<bar>r\<bar>"
    using assms bounds_order by simp_all
  show ?thesis
  proof (cases "\<bar>r\<bar> \<le> underflow_bound")
    case True
    then have "num_div (num_add (Fin r) (Fin r)) (Fin 2) = Fin 0"
      using no bounds_order by (auto simp: fin_def)
    then show ?thesis using True no by (simp add: num_sub_def fin_def)
  next
    case False
    then have "num_div (num_add (Fin r) (Fin r)) (Fin 2) = Fin r"
      using no bounds_order by (auto simp: fin_def)
    then show ?thesis by (simp add: num_sub_def)
  qed
qed

lemma point_width: "num_div (num_sub (Fin r) (Fin r)) (Fin 2) = Fin 0"
  by (simp add: num_sub_def)

lemma scoreNumericAttribute_point:
  assumes "doubles_finitely m"
  shows "scoreNumericAttribute (Some \<lparr>pref_min = Some m, pref_max = Some m\<rparr>) (Some m) = NaN"
proof (cases m)
  case (Fin r)
  then have "2 * \<bar>r\<bar> \<le> max_finite" using assms by (simp add: doubles_finitely_def)
  then show ?thesis
    using point_distance [of r] point_width [of r]
    by (simp add: scoreNumericAttribute_def Let_def num_gt_def Fin)
qed (simp_all add: scoreNumericAttribute_def Let_def num_sub_def num_gt_def inf_of_sign_def)

lemma point_hit_NaN:
  assumes "point_hit p v"
  shows "scoreNumericAttribute p v = NaN"
proof -
  obtain q lo where q: "p = Some q" "pref_min q = Some lo" "pref_max q = Some lo" "v = Some lo"
    "doubles_finitely lo"
    using assms by (auto simp: point_hit_def split: option.splits)
  then have r: "q = \<lparr>pref_min = Some lo, pref_max = Some lo\<rparr>" by (cases q) simp
  show ?thesis unfolding q(1,4) r using q(5) by (rule scoreNumericAttribute_point)
qed

lemma point_hit_pref: "point_hit p v \<Longrightarrow> p \<noteq> None"
  by (auto simp: point_hit_def split: option.splits)

lemma doubles_finitely_5: "doubles_finitely (Fin 5)"
  using bounds_order by (simp add: doubles_finitely_def)

text \<open>
  Claim C4, at an input where it fails. With both bounds set to 5 the midpoint of the range
  is 5, and the value 5 does not score +15: the scorer returns NaN.
\<close>

theorem midpoint_of_degenerate_range:
  "num_div (num_add (Fin 5) (Fin 5)) (Fin 2) = Fin 5
   \<and> scoreNumericAttribute (Some \<lparr>pref_min = Some (Fin 5), pref_max = Some (Fin 5)\<rparr>) (Some (Fin 5)) = NaN"
  by (simp add: scoreNumericAttribute_point doubles_finitely_5)


text \<open>
  The bonus for proximity is a number between 0 and 15 whenever the scaled distance is
  not negative. On the lower bound itself a preference with only that bound scores 15,
  from five units above it on it scores 0, and one unit below it scores -20. The exact
  midpoint of a range scores 15 when the sum of the bounds does not overflow and the
  bounds are more than \<open>2^-1074\<close> apart.
\<close>

lemma proximity_bonus:
  assumes "nonnegative z"
  shows "\<exists>u. num_mul (Fin 15) (Math_max (Fin 0) (num_sub (Fin 1) z)) = Fin u \<and> 0 \<le> u \<and> u \<le> 15"
  using assms
proof (cases z rule: nonnegative_cases)
  case 1
  then show ?thesis by (simp add: num_sub_def Math_max_def)
next
  case (2 q)
  have s: "num_sub (Fin 1) z = fin (1 - q)" by (simp add: 2 num_sub_def)
  show ?thesis
  proof (cases "1 - q" rule: fin_cases)
    case overflow
    have "1 < overflow_bound" using bounds_order by simp
    then have "\<not> 0 < 1 - q" using overflow(1) 2(2) by linarith
    then show ?thesis using overflow by (simp add: s inf_of_sign_def Math_max_def)
  next
    case underflow
    then show ?thesis by (simp add: s Math_max_def)
  next
    case exact
    have "0 \<le> 15 * max 0 (1 - q)" "15 * max 0 (1 - q) \<le> 15" using 2(2) by simp_all
    then obtain u where "fin (15 * max 0 (1 - q)) = Fin u" "0 \<le> u" "u \<le> 15"
      using fin_unit [of "15 * max 0 (1 - q)" 15] by auto
    then show ?thesis using exact by (auto simp: s Math_max_Fin)
  qed
qed

lemma scoreNumericAttribute_at_min:
  "scoreNumericAttribute (Some \<lparr>pref_min = Some (Fin lo), pref_max = None\<rparr>) (Some (Fin lo)) = Fin 15"
  by (simp add: scoreNumericAttribute_def Let_def num_sub_def num_gt_def Math_max_def)

lemma scoreNumericAttribute_below_min:
  "scoreNumericAttribute (Some \<lparr>pref_min = Some (Fin lo), pref_max = hi\<rparr>) (Some (Fin (lo - 1)))
     = Fin (- 20)"
  by (simp add: scoreNumericAttribute_def)

lemma scoreNumericAttribute_beyond_window:
  assumes "lo + 5 \<le> v"
  shows "scoreNumericAttribute (Some \<lparr>pref_min = Some (Fin lo), pref_max = None\<rparr>) (Some (Fin v)) = Fin 0"
proof -
  have z: "num_mul (Fin 15) (Math_max (Fin 0) (num_sub (Fin 1) z)) = Fin 0"
    if "z = PInf \<or> (\<exists>q. z = Fin q \<and> 1 \<le> q)" for z
    using that
  proof
    assume "z = PInf"
    then show ?thesis by (simp add: num_sub_def Math_max_def)
  next
    assume "\<exists>q. z = Fin q \<and> 1 \<le> q"
    then obtain q where q: "z = Fin q" "1 \<le> q" by blast
    have "fin (1 - q) = NInf \<or> (\<exists>t. fin (1 - q) = Fin t \<and> t \<le> 0)"
    proof (cases "1 - q" rule: fin_cases)
      case overflow
      then show ?thesis using q(2) by (simp add: inf_of_sign_def)
    next
      case underflow
      then show ?thesis by simp
    next
      case exact
      then show ?thesis using q(2) by simp
    qed
    then show ?thesis
      by (auto simp: q(1) num_sub_def Math_max_def)
  qed
  have d: "num_sub (Fin v) (Fin lo) = fin (v - lo)" by (simp add: num_sub_def)
  have "num_div (fin (v - lo)) (Fin 5) = PInf \<or> (\<exists>q. num_div (fin (v - lo)) (Fin 5) = Fin q \<and> 1 \<le> q)"
  proof (cases "v - lo" rule: fin_cases)
    case overflow
    then show ?thesis using assms by (simp add: inf_of_sign_def)
  next
    case underflow
    then show ?thesis using assms bounds_order by simp
  next
    case exact
    have one: "1 \<le> (v - lo) / 5" using assms by simp
    have "num_div (fin (v - lo)) (Fin 5) = fin ((v - lo) / 5)" using exact by simp
    moreover have "fin ((v - lo) / 5) = PInf \<or> fin ((v - lo) / 5) = Fin ((v - lo) / 5)"
    proof (cases "(v - lo) / 5" rule: fin_cases)
      case overflow
      then show ?thesis using one by (simp add: inf_of_sign_def)
    next
      case underflow
      then show ?thesis using one bounds_order by linarith
    next
      case exact
      then show ?thesis by simp
    qed
    ultimately show ?thesis using one by auto
  qed
  then show ?thesis
    using assms z by (simp add: scoreNumericAttribute_def Let_def num_gt_def d)
qed

lemma centre_cases:
  assumes "\<bar>lo + hi\<bar> < overflow_bound"
  obtains "num_div (num_add (Fin lo) (Fin hi)) (Fin 2) = Fin ((lo + hi) / 2)"
  | "num_div (num_add (Fin lo) (Fin hi)) (Fin 2) = Fin 0" "\<bar>lo + hi\<bar> \<le> 2 * underflow_bound"
proof (cases "lo + hi" rule: fin_cases)
  case overflow
  then show ?thesis using assms by simp
next
  case underflow
  then have "num_div (num_add (Fin lo) (Fin hi)) (Fin 2) = Fin 0" by simp
  moreover have "\<bar>lo + hi\<bar> \<le> 2 * underflow_bound" using underflow(1) bounds_order by simp
  ultimately show ?thesis using that(2) by blast
next
  case exact
  show ?thesis
  proof (cases "(lo + hi) / 2" rule: fin_cases)
    case overflow
    then show ?thesis using assms by simp
  next
    case underflow
    then have "num_div (num_add (Fin lo) (Fin hi)) (Fin 2) = Fin 0" using exact by simp
    moreover have "\<bar>lo + hi\<bar> \<le> 2 * underflow_bound" using underflow(1) by simp
    ultimately show ?thesis using that(2) by blast
  next
    case inner: exact
    then have "num_div (num_add (Fin lo) (Fin hi)) (Fin 2) = Fin ((lo + hi) / 2)"
      using exact by simp
    then show ?thesis using that(1) by blast
  qed
qed

lemma half_width_cases:
  assumes "2 * underflow_bound < hi - lo"
  obtains "num_div (num_sub (Fin hi) (Fin lo)) (Fin 2) = PInf" "overflow_bound \<le> hi - lo"
  | "num_div (num_sub (Fin hi) (Fin lo)) (Fin 2) = Fin ((hi - lo) / 2)" "hi - lo < overflow_bound"
proof -
  have pos: "0 < hi - lo" using assms bounds_order by simp
  have w: "num_sub (Fin hi) (Fin lo) = fin (hi - lo)" by (simp add: num_sub_def)
  show ?thesis
  proof (cases "hi - lo" rule: fin_cases)
    case overflow
    then have "num_div (num_sub (Fin hi) (Fin lo)) (Fin 2) = PInf"
      using pos by (simp add: w inf_of_sign_def)
    then show ?thesis using that(1) overflow(1) pos by simp
  next
    case underflow
    then show ?thesis using assms bounds_order by simp
  next
    case exact
    have "fin ((hi - lo) / 2) = Fin ((hi - lo) / 2)"
      using assms exact(2) pos bounds_order by (simp add: fin_def)
    then have "num_div (num_sub (Fin hi) (Fin lo)) (Fin 2) = Fin ((hi - lo) / 2)"
      using exact by (simp add: w)
    then show ?thesis using that(2) exact(2) pos by simp
  qed
qed

lemma scoreNumericAttribute_midpoint:
  assumes "\<bar>lo + hi\<bar> < overflow_bound" "2 * underflow_bound < hi - lo"
  shows "scoreNumericAttribute (Some \<lparr>pref_min = Some (Fin lo), pref_max = Some (Fin hi)\<rparr>)
           (Some (Fin ((lo + hi) / 2))) = Fin 15"
proof -
  let ?v = "(lo + hi) / 2"
  have pos: "0 < hi - lo" using assms(2) bounds_order by simp
  have d: "Math_abs (num_sub (Fin ?v) (num_div (num_add (Fin lo) (Fin hi)) (Fin 2))) = Fin 0"
  proof (cases rule: centre_cases [OF assms(1)])
    case 1
    then show ?thesis by (simp add: num_sub_def)
  next
    case 2
    then have "\<bar>?v\<bar> \<le> underflow_bound" by simp
    then have "fin ?v = Fin 0" using bounds_order by (simp add: fin_def)
    then show ?thesis using 2(1) by (simp add: num_sub_def)
  qed
  have r: "num_div (Fin 0) (num_div (num_sub (Fin hi) (Fin lo)) (Fin 2)) = Fin 0"
    using pos by (cases rule: half_width_cases [OF assms(2)]) simp_all
  show ?thesis
    using pos d r
    by (simp add: scoreNumericAttribute_def Let_def num_gt_def num_sub_def [of "Fin 1"] Math_max_def)
qed

text \<open>
  For finite bounds and a finite value the contribution of a wide preference is a number
  between -20 and 15.
\<close>

lemma both_bounds_ratio:
  assumes "lo \<le> v" "v \<le> hi" "\<bar>lo\<bar> \<le> max_finite" "\<bar>hi\<bar> \<le> max_finite"
    and "2 * underflow_bound < hi - lo"
  shows "nonnegative
           (num_div (Math_abs (num_sub (Fin v) (num_div (num_add (Fin lo) (Fin hi)) (Fin 2))))
              (num_div (num_sub (Fin hi) (Fin lo)) (Fin 2)))"
proof (cases rule: half_width_cases [OF assms(5)])
  case 1
  have mo: "max_finite < overflow_bound" using bounds_order by simp
  have signs: "lo < 0" "0 < hi" using 1(2) assms(3,4) mo by linarith+
  then have sum: "\<bar>lo + hi\<bar> < overflow_bound" using assms(3,4) mo by linarith
  have "\<exists>d. Math_abs (num_sub (Fin v) (num_div (num_add (Fin lo) (Fin hi)) (Fin 2))) = Fin d"
  proof (cases rule: centre_cases [OF sum])
    case 1
    have "\<bar>v - (lo + hi) / 2\<bar> < overflow_bound"
      using assms(1-4) mo by (simp add: abs_le_iff abs_less_iff field_simps)
    then show ?thesis
      using 1 by (cases "v - (lo + hi) / 2" rule: fin_cases) (simp_all add: num_sub_def)
  next
    case 2
    have "\<bar>v\<bar> < overflow_bound" using assms(1-4) mo by linarith
    then show ?thesis
      using 2(1) by (cases v rule: fin_cases) (simp_all add: num_sub_def)
  qed
  then show ?thesis using 1(1) by (auto simp: nonnegative_def)
next
  case 2
  have h: "0 < (hi - lo) / 2" using assms(5) bounds_order by simp
  have "num_div (num_add (Fin lo) (Fin hi)) (Fin 2) \<noteq> NaN"
    by (cases "lo + hi" rule: fin_cases) (simp_all add: inf_of_sign_def not_NaN_fin)
  then have "num_sub (Fin v) (num_div (num_add (Fin lo) (Fin hi)) (Fin 2)) \<noteq> NaN"
    by (cases "num_div (num_add (Fin lo) (Fin hi)) (Fin 2)") (simp_all add: num_sub_def not_NaN_fin)
  then have "nonnegative (Math_abs (num_sub (Fin v) (num_div (num_add (Fin lo) (Fin hi)) (Fin 2))))"
    by (rule nonnegative_abs)
  then show ?thesis
    using h 2(1)
    by (cases rule: nonnegative_cases) (auto simp: nonnegative_fin, simp add: nonnegative_def inf_of_sign_def)
qed

lemma finite_value_cases:
  assumes "finite_value v"
  obtains "v = None" | r where "v = Some (Fin r)" "\<bar>r\<bar> \<le> max_finite"
proof (cases v)
  case None
  then show ?thesis using that(1) by simp
next
  case (Some x)
  then show ?thesis
    using assms that(2) by (cases x) (simp_all add: finite_value_def finite_double_def)
qed

lemma scoreNumericAttribute_finite:
  assumes "finite_preference preference" "finite_value actualValue" "wide_preference preference"
  shows "\<exists>r. scoreNumericAttribute preference actualValue = Fin r \<and> - 20 \<le> r \<and> r \<le> 15"
proof (cases preference)
  case None
  then show ?thesis by (simp add: scoreNumericAttribute_def)
next
  case (Some p)
  obtain mn mx where p: "p = \<lparr>pref_min = mn, pref_max = mx\<rparr>" by (cases p) simp
  have fin: "finite_value mn" "finite_value mx"
    using assms(1) by (simp_all add: finite_preference_def Some p)
  have bonus: "\<exists>r. num_mul (Fin 15) (Math_max (Fin 0) (num_sub (Fin 1) z)) = Fin r \<and> - 20 \<le> r \<and> r \<le> 15"
    if "nonnegative z" for z
    using proximity_bonus [OF that] by force
  from assms(2) show ?thesis
  proof (cases actualValue rule: finite_value_cases)
    case 1
    then show ?thesis by (simp add: scoreNumericAttribute_unknown)
  next
    case (2 x)
    note v = 2
    from fin(1) show ?thesis
    proof (cases mn rule: finite_value_cases)
      case 1
      note mn_none = 1
      from fin(2) show ?thesis
      proof (cases mx rule: finite_value_cases)
        case 1
        then show ?thesis by (simp add: scoreNumericAttribute_def Some p mn_none)
      next
        case (2 hi)
        show ?thesis
        proof (cases "hi < x")
          case True
          then show ?thesis
            by (simp add: scoreNumericAttribute_def Some p mn_none 2 v num_gt_def)
        next
          case False
          then have "nonnegative (num_div (num_sub (Fin hi) (Fin x)) (Fin 5))"
            by (intro nonnegative_fifth nonnegative_difference) simp
          then show ?thesis
            using bonus False
            by (simp add: scoreNumericAttribute_def Some p mn_none 2 v num_gt_def Let_def)
        qed
      qed
    next
      case (2 lo)
      note mn_some = 2
      from fin(2) show ?thesis
      proof (cases mx rule: finite_value_cases)
        case 1
        show ?thesis
        proof (cases "x < lo")
          case True
          then show ?thesis
            by (simp add: scoreNumericAttribute_def Some p mn_some 1 v)
        next
          case False
          then have "nonnegative (num_div (num_sub (Fin x) (Fin lo)) (Fin 5))"
            by (intro nonnegative_fifth nonnegative_difference) simp
          then show ?thesis
            using bonus False
            by (simp add: scoreNumericAttribute_def Some p mn_some 1 v num_gt_def Let_def)
        qed
      next
        case (2 hi)
        show ?thesis
        proof (cases "lo \<le> x \<and> x \<le> hi")
          case True
          then have "2 * underflow_bound < hi - lo"
            using assms(3) by (auto simp: wide_preference_def Some p mn_some 2)
          then have "nonnegative
             (num_div (Math_abs (num_sub (Fin x) (num_div (num_add (Fin lo) (Fin hi)) (Fin 2))))
                (num_div (num_sub (Fin hi) (Fin lo)) (Fin 2)))"
            using True mn_some(2) 2(2) by (intro both_bounds_ratio) simp_all
          then show ?thesis
            using bonus True
            by (simp add: scoreNumericAttribute_def Some p mn_some 2 v num_gt_def Let_def not_less
                del: num_add.simps num_div.simps)
        next
          case False
          then show ?thesis
            by (auto simp: scoreNumericAttribute_def Some p mn_some 2 v num_gt_def)
        qed
      qed
    qed
  qed
qed

lemma boolean_contribution: "\<exists>b. scoreBooleanAttribute p v = Fin b \<and> \<bar>b\<bar> \<le> 25"
  by (simp add: scoreBooleanAttribute_def split: option.split)

lemma enum_contribution: "\<exists>b. scoreEnumAttribute p v = Fin b \<and> \<bar>b\<bar> \<le> 25"
  by (simp add: scoreEnumAttribute_def Let_def split: option.split)

lemma numeric_contribution:
  assumes "finite_preference p" "finite_value v" "wide_preference p"
  shows "\<exists>b. scoreNumericAttribute p v = Fin b \<and> \<bar>b\<bar> \<le> 25"
  using scoreNumericAttribute_finite [OF assms] by force

section \<open>The directional score\<close>

lemma ccs_clamp: "\<exists>x. calculateCompatibilityScore s c = Math_max (Fin 0) (Math_min (Fin 100) x)"
  unfolding calculateCompatibilityScore_def Let_def by blast

lemma ccs_range: "calculateCompatibilityScore s c = NaN \<or> in_score_range (calculateCompatibilityScore s c)"
proof -
  obtain x where "calculateCompatibilityScore s c = Math_max (Fin 0) (Math_min (Fin 100) x)"
    using ccs_clamp by blast
  then show ?thesis using clamp_cases[of x] by simp
qed

lemma ccs_emptyPreferences:
  "preferences seeker = emptyPreferences \<Longrightarrow> calculateCompatibilityScore seeker candidate = Fin 50"
  by (simp add: calculateCompatibilityScore_def emptyPreferences_def Math_max_def Math_min_def)

text \<open>
  Claim C3. Each of the three scorers returns 0 for an unknown attribute value, whatever
  the preference is; hence, for each of the seven fields, the directional score against a
  candidate whose value of that field is unknown is the score of the same call with the
  seeker's preference on that field removed.
\<close>

theorem unknown_attribute_is_neutral:
  "scoreNumericAttribute p None = Fin 0
   \<and> scoreBooleanAttribute b None = Fin 0
   \<and> scoreEnumAttribute e None = Fin 0
   \<and> (size_attr (attributes c) = None \<longrightarrow>
        calculateCompatibilityScore s c =
        calculateCompatibilityScore (s\<lparr>preferences := (preferences s)\<lparr>size_pref := None\<rparr>\<rparr>) c)
   \<and> (weight_attr (attributes c) = None \<longrightarrow>
        calculateCompatibilityScore s c =
        calculateCompatibilityScore (s\<lparr>preferences := (preferences s)\<lparr>weight_pref := None\<rparr>\<rparr>) c)
   \<and> (hasStem_attr (attributes c) = None \<longrightarrow>
        calculateCompatibilityScore s c =
        calculateCompatibilityScore (s\<lparr>preferences := (preferences s)\<lparr>hasStem_pref := None\<rparr>\<rparr>) c)
   \<and> (hasLeaf_attr (attributes c) = None \<longrightarrow>
        calculateCompatibilityScore s c =
        calculateCompatibilityScore (s\<lparr>preferences := (preferences s)\<lparr>hasLeaf_pref := None\<rparr>\<rparr>) c)
   \<and> (hasWorm_attr (attributes c) = None \<longrightarrow>
        calculateCompatibilityScore s c =
        calculateCompatibilityScore (s\<lparr>preferences := (preferences s)\<lparr>hasWorm_pref := None\<rparr>\<rparr>) c)
   \<and> (hasChemicals_attr (attributes c) = None \<longrightarrow>
        calculateCompatibilityScore s c =
        calculateCompatibilityScore (s\<lparr>preferences := (preferences s)\<lparr>hasChemicals_pref := None\<rparr>\<rparr>) c)
   \<and> (shineFactor_attr (attributes c) = None \<longrightarrow>
        calculateCompatibilityScore s c =
        calculateCompatibilityScore (s\<lparr>preferences := (preferences s)\<lparr>shineFactor_pref := None\<rparr>\<rparr>) c)"
proof (intro conjI impI)
  show "scoreNumericAttribute p None = Fin 0" by (rule scoreNumericAttribute_unknown)
  show "scoreBooleanAttribute b None = Fin 0" by (rule scoreBooleanAttribute_unknown)
  show "scoreEnumAttribute e None = Fin 0" by (rule scoreEnumAttribute_unknown)
next
  assume "size_attr (attributes c) = None"
  then show "calculateCompatibilityScore s c =
        calculateCompatibilityScore (s\<lparr>preferences := (preferences s)\<lparr>size_pref := None\<rparr>\<rparr>) c"
    by (simp add: calculateCompatibilityScore_def Let_def scorer_unknown num_add_zero_right del: not_None_eq)
next
  assume "weight_attr (attributes c) = None"
  then show "calculateCompatibilityScore s c =
        calculateCompatibilityScore (s\<lparr>preferences := (preferences s)\<lparr>weight_pref := None\<rparr>\<rparr>) c"
    by (simp add: calculateCompatibilityScore_def Let_def scorer_unknown num_add_zero_right del: not_None_eq)
next
  assume "hasStem_attr (attributes c) = None"
  then show "calculateCompatibilityScore s c =
        calculateCompatibilityScore (s\<lparr>preferences := (preferences s)\<lparr>hasStem_pref := None\<rparr>\<rparr>) c"
    by (simp add: calculateCompatibilityScore_def Let_def scorer_unknown num_add_zero_right del: not_None_eq)
next
  assume "hasLeaf_attr (attributes c) = None"
  then show "calculateCompatibilityScore s c =
        calculateCompatibilityScore (s\<lparr>preferences := (preferences s)\<lparr>hasLeaf_pref := None\<rparr>\<rparr>) c"
    by (simp add: calculateCompatibilityScore_def Let_def scorer_unknown num_add_zero_right del: not_None_eq)
next
  assume "hasWorm_attr (attributes c) = None"
  then show "calculateCompatibilityScore s c =
        calculateCompatibilityScore (s\<lparr>preferences := (preferences s)\<lparr>hasWorm_pref := None\<rparr>\<rparr>) c"
    by (simp add: calculateCompatibilityScore_def Let_def scorer_unknown num_add_zero_right del: not_None_eq)
next
  assume "hasChemicals_attr (attributes c) = None"
  then show "calculateCompatibilityScore s c =
        calculateCompatibilityScore (s\<lparr>preferences := (preferences s)\<lparr>hasChemicals_pref := None\<rparr>\<rparr>) c"
    by (simp add: calculateCompatibilityScore_def Let_def scorer_unknown num_add_zero_right del: not_None_eq)
next
  assume "shineFactor_attr (attributes c) = None"
  then show "calculateCompatibilityScore s c =
        calculateCompatibilityScore (s\<lparr>preferences := (preferences s)\<lparr>shineFactor_pref := None\<rparr>\<rparr>) c"
    by (simp add: calculateCompatibilityScore_def Let_def scorer_unknown num_add_zero_right del: not_None_eq)
qed

theorem unknown_attribute_is_neutral_witness:
  "attributes orangeUnknown = unknownAttributes
   \<and> calculateCompatibilityScore exactSeeker orangeUnknown =
       calculateCompatibilityScore (exactSeeker\<lparr>preferences := (preferences exactSeeker)\<lparr>size_pref := None\<rparr>\<rparr>) orangeUnknown
   \<and> calculateCompatibilityScore exactSeeker orangeUnknown =
       calculateCompatibilityScore (exactSeeker\<lparr>preferences := (preferences exactSeeker)\<lparr>weight_pref := None\<rparr>\<rparr>) orangeUnknown
   \<and> calculateCompatibilityScore exactSeeker orangeUnknown =
       calculateCompatibilityScore (exactSeeker\<lparr>preferences := (preferences exactSeeker)\<lparr>hasStem_pref := None\<rparr>\<rparr>) orangeUnknown
   \<and> calculateCompatibilityScore exactSeeker orangeUnknown =
       calculateCompatibilityScore (exactSeeker\<lparr>preferences := (preferences exactSeeker)\<lparr>hasLeaf_pref := None\<rparr>\<rparr>) orangeUnknown
   \<and> calculateCompatibilityScore exactSeeker orangeUnknown =
       calculateCompatibilityScore (exactSeeker\<lparr>preferences := (preferences exactSeeker)\<lparr>hasWorm_pref := None\<rparr>\<rparr>) orangeUnknown
   \<and> calculateCompatibilityScore exactSeeker orangeUnknown =
       calculateCompatibilityScore (exactSeeker\<lparr>preferences := (preferences exactSeeker)\<lparr>hasChemicals_pref := None\<rparr>\<rparr>) orangeUnknown
   \<and> calculateCompatibilityScore exactSeeker orangeUnknown =
       calculateCompatibilityScore (exactSeeker\<lparr>preferences := (preferences exactSeeker)\<lparr>shineFactor_pref := None\<rparr>\<rparr>) orangeUnknown"
proof -
  have a: "attributes orangeUnknown = unknownAttributes"
    by (simp add: orangeUnknown_def)
  have u: "size_attr (attributes orangeUnknown) = None" "weight_attr (attributes orangeUnknown) = None"
    "hasStem_attr (attributes orangeUnknown) = None" "hasLeaf_attr (attributes orangeUnknown) = None"
    "hasWorm_attr (attributes orangeUnknown) = None" "hasChemicals_attr (attributes orangeUnknown) = None"
    "shineFactor_attr (attributes orangeUnknown) = None"
    by (simp_all add: orangeUnknown_def unknownAttributes_def)
  show ?thesis
    using a u unknown_attribute_is_neutral [of None None None orangeUnknown exactSeeker]
    by blast
qed




text \<open>
  A preference that is hit at its point makes the directional score NaN. On finite
  numbers and wide preferences the directional score lies in [0, 100].
\<close>

lemma ccs_point_hit:
  assumes "point_hit (size_pref (preferences s)) (size_attr (attributes c))
         \<or> point_hit (weight_pref (preferences s)) (weight_attr (attributes c))"
  shows "calculateCompatibilityScore s c = NaN"
  using assms
  by (auto simp add: calculateCompatibilityScore_def Let_def point_hit_NaN dest: point_hit_pref
      simp del: not_None_eq)

lemma add_contribution:
  assumes "\<exists>a. s = Fin a \<and> \<bar>a\<bar> \<le> B" "\<exists>b. y = Fin b \<and> \<bar>b\<bar> \<le> 25" "B \<le> 1000"
  shows "\<exists>a. (if g then num_add s y else s) = Fin a \<and> \<bar>a\<bar> \<le> B + 25"
proof -
  obtain a b where ab: "s = Fin a" "\<bar>a\<bar> \<le> B" "y = Fin b" "\<bar>b\<bar> \<le> 25"
    using assms by blast
  have "\<bar>a + b\<bar> < overflow_bound" using ab assms(3) bounds_order by linarith
  then have "fin (a + b) = Fin 0 \<or> fin (a + b) = Fin (a + b)"
    by (cases "a + b" rule: fin_cases) simp_all
  then show ?thesis using ab by (cases g) auto
qed

lemma ccs_finite:
  assumes "finite_preference (size_pref (preferences s))"
    and "finite_preference (weight_pref (preferences s))"
    and "finite_value (size_attr (attributes c))"
    and "finite_value (weight_attr (attributes c))"
    and "wide_preference (size_pref (preferences s))"
    and "wide_preference (weight_pref (preferences s))"
  shows "in_score_range (calculateCompatibilityScore s c)"
proof -
  let ?p = "preferences s" and ?a = "attributes c"
  define s1 where "s1 = (if size_pref ?p \<noteq> None
      then num_add (Fin 50) (scoreNumericAttribute (size_pref ?p) (size_attr ?a)) else Fin 50)"
  define s2 where "s2 = (if weight_pref ?p \<noteq> None
      then num_add s1 (scoreNumericAttribute (weight_pref ?p) (weight_attr ?a)) else s1)"
  define s3 where "s3 = (if hasStem_pref ?p \<noteq> None
      then num_add s2 (scoreBooleanAttribute (hasStem_pref ?p) (hasStem_attr ?a)) else s2)"
  define s4 where "s4 = (if hasLeaf_pref ?p \<noteq> None
      then num_add s3 (scoreBooleanAttribute (hasLeaf_pref ?p) (hasLeaf_attr ?a)) else s3)"
  define s5 where "s5 = (if hasWorm_pref ?p \<noteq> None
      then num_add s4 (scoreBooleanAttribute (hasWorm_pref ?p) (hasWorm_attr ?a)) else s4)"
  define s6 where "s6 = (if hasChemicals_pref ?p \<noteq> None
      then num_add s5 (scoreBooleanAttribute (hasChemicals_pref ?p) (hasChemicals_attr ?a)) else s5)"
  define s7 where "s7 = (if truthy_pref (shineFactor_pref ?p)
      then num_add s6 (scoreEnumAttribute (shineFactor_pref ?p)
                         (map_option shineFactor_string (shineFactor_attr ?a))) else s6)"
  have ccs: "calculateCompatibilityScore s c = Math_max (Fin 0) (Math_min (Fin 100) s7)"
    unfolding calculateCompatibilityScore_def Let_def s7_def s6_def s5_def s4_def s3_def s2_def s1_def ..
  have "\<exists>a. Fin 50 = Fin a \<and> \<bar>a\<bar> \<le> 50" by simp
  then have "\<exists>a. s1 = Fin a \<and> \<bar>a\<bar> \<le> 50 + 25"
    unfolding s1_def by (rule add_contribution) (simp_all add: numeric_contribution assms)
  then have "\<exists>a. s2 = Fin a \<and> \<bar>a\<bar> \<le> 50 + 25 + 25"
    unfolding s2_def by (rule add_contribution) (simp_all add: numeric_contribution assms)
  then have "\<exists>a. s3 = Fin a \<and> \<bar>a\<bar> \<le> 50 + 25 + 25 + 25"
    unfolding s3_def by (rule add_contribution) (simp_all add: boolean_contribution)
  then have "\<exists>a. s4 = Fin a \<and> \<bar>a\<bar> \<le> 50 + 25 + 25 + 25 + 25"
    unfolding s4_def by (rule add_contribution) (simp_all add: boolean_contribution)
  then have "\<exists>a. s5 = Fin a \<and> \<bar>a\<bar> \<le> 50 + 25 + 25 + 25 + 25 + 25"
    unfolding s5_def by (rule add_contribution) (simp_all add: boolean_contribution)
  then have "\<exists>a. s6 = Fin a \<and> \<bar>a\<bar> \<le> 50 + 25 + 25 + 25 + 25 + 25 + 25"
    unfolding s6_def by (rule add_contribution) (simp_all add: boolean_contribution)
  then have "\<exists>a. s7 = Fin a \<and> \<bar>a\<bar> \<le> 50 + 25 + 25 + 25 + 25 + 25 + 25 + 25"
    unfolding s7_def by (rule add_contribution) (simp_all add: enum_contribution)
  then have "is_finite s7" by (auto simp: is_finite_iff)
  then show ?thesis unfolding ccs by (rule clamp_finite)
qed

subsection \<open>The sample fruits\<close>

lemmas fruit_defs = emptyPreferences_def unknownAttributes_def appleNoPreferences_def
  orangePerfectMatch_def exactSeeker_def orangeAtPoint_def orangeStemless_def orangeUnknown_def
  orangeDemanding_def

lemmas score_defs = calculateCompatibilityScore_def scoreNumericAttribute_def
  scoreBooleanAttribute_def scoreEnumAttribute_def Let_def num_sub_def num_gt_def
  Math_max_def Math_min_def inf_of_sign_def

lemma ccs_exact_atPoint: "calculateCompatibilityScore exactSeeker orangeAtPoint = NaN"
  by (simp add: fruit_defs score_defs del: not_None_eq)

lemma ccs_atPoint_exact: "calculateCompatibilityScore orangeAtPoint exactSeeker = Fin 50"
  by (simp add: fruit_defs score_defs del: not_None_eq)

lemma ccs_exact_stemless: "calculateCompatibilityScore exactSeeker orangeStemless = Fin 25"
  by (simp add: fruit_defs score_defs del: not_None_eq)

lemma ccs_stemless_exact: "calculateCompatibilityScore orangeStemless exactSeeker = Fin 25"
  by (simp add: fruit_defs score_defs del: not_None_eq)

lemma ccs_exact_unknown: "calculateCompatibilityScore exactSeeker orangeUnknown = Fin 50"
  by (simp add: fruit_defs score_defs del: not_None_eq)

lemma ccs_unknown_exact: "calculateCompatibilityScore orangeUnknown exactSeeker = Fin 50"
  by (simp add: fruit_defs score_defs del: not_None_eq)

lemma ccs_exact_demanding: "calculateCompatibilityScore exactSeeker orangeDemanding = NaN"
  by (simp add: fruit_defs score_defs del: not_None_eq)

lemma ccs_demanding_exact: "calculateCompatibilityScore orangeDemanding exactSeeker = Fin 0"
  by (simp add: fruit_defs score_defs del: not_None_eq)

section \<open>The mutual score\<close>

lemma mutual_range: "calculateMutualScore a b = NaN \<or> in_score_range (calculateMutualScore a b)"
  unfolding calculateMutualScore_def Let_def
  by (rule mutual_of_range) (rule ccs_range)+

lemma mutual_in_range:
  assumes "in_score_range (calculateCompatibilityScore a b)"
    and "in_score_range (calculateCompatibilityScore b a)"
  shows "in_score_range (calculateMutualScore a b)"
  unfolding calculateMutualScore_def Let_def using assms by (rule mutual_of_numbers)

lemma mutual_exact_unknown: "calculateMutualScore exactSeeker orangeUnknown = Fin 50"
  by (simp only: calculateMutualScore_def Let_def ccs_exact_unknown ccs_unknown_exact mutual_50)

lemma mutual_exact_stemless: "calculateMutualScore exactSeeker orangeStemless = Fin 25"
  by (simp only: calculateMutualScore_def Let_def ccs_exact_stemless ccs_stemless_exact mutual_25)

lemma mutual_exact_atPoint: "calculateMutualScore exactSeeker orangeAtPoint = NaN"
  by (simp add: calculateMutualScore_def Let_def ccs_exact_atPoint ccs_atPoint_exact)

lemma mutual_exact_demanding: "calculateMutualScore exactSeeker orangeDemanding = NaN"
  by (simp add: calculateMutualScore_def Let_def ccs_exact_demanding ccs_demanding_exact)

text \<open>
  Claim C5. A seeker without any preference scores every candidate at exactly 50, whatever
  the candidate's attributes are; when neither fruit has a preference the mutual score is
  exactly 50.
\<close>

theorem no_preferences_score_50:
  "(preferences seeker = emptyPreferences \<longrightarrow> calculateCompatibilityScore seeker candidate = Fin 50)
   \<and> (preferences fruitA = emptyPreferences \<and> preferences fruitB = emptyPreferences
        \<longrightarrow> calculateMutualScore fruitA fruitB = Fin 50)"
  by (simp add: ccs_emptyPreferences calculateMutualScore_def Let_def mutual_50 del: num_mul.simps num_div.simps Math_round.simps Math_sqrt.simps)

theorem no_preferences_score_50_witness:
  "preferences appleNoPreferences = emptyPreferences
   \<and> preferences orangePerfectMatch = emptyPreferences
   \<and> calculateCompatibilityScore appleNoPreferences orangePerfectMatch = Fin 50
   \<and> calculateMutualScore appleNoPreferences orangePerfectMatch = Fin 50"
proof -
  have a: "preferences appleNoPreferences = emptyPreferences"
    by (simp add: appleNoPreferences_def)
  have b: "preferences orangePerfectMatch = emptyPreferences"
    by (simp add: orangePerfectMatch_def)
  show ?thesis
    using a b no_preferences_score_50 [of appleNoPreferences orangePerfectMatch appleNoPreferences orangePerfectMatch]
    by simp
qed

text \<open>
  Claim C6. The mutual score is symmetric: both argument orders return the same value. For
  a pair whose score is NaN both orders return NaN; the operator \<^verbatim>\<open>===\<close> holds between
  the two results exactly when the score is a number, as it does between a result and
  itself.
\<close>

theorem mutual_score_symmetric:
  "calculateMutualScore fruitA fruitB = calculateMutualScore fruitB fruitA
   \<and> num_eq (calculateMutualScore fruitA fruitB) (calculateMutualScore fruitB fruitA)
       = num_eq (calculateMutualScore fruitA fruitB) (calculateMutualScore fruitA fruitB)"
proof -
  have "calculateMutualScore fruitA fruitB = calculateMutualScore fruitB fruitA"
    by (simp only: calculateMutualScore_def Let_def
        num_mul_commute [of "calculateCompatibilityScore fruitA fruitB"])
  then show ?thesis by simp
qed

text \<open>
  A directional score of 0 forces a mutual score of 0 whenever the other directional
  score is a number.
\<close>

lemma zero_direction_gives_zero:
  assumes "calculateCompatibilityScore fruitA fruitB = Fin 0"
    and "calculateCompatibilityScore fruitB fruitA \<noteq> NaN"
  shows "calculateMutualScore fruitA fruitB = Fin 0 \<and> calculateMutualScore fruitB fruitA = Fin 0"
proof -
  obtain r where r: "calculateCompatibilityScore fruitB fruitA = Fin r"
    using assms(2) ccs_range [of fruitB fruitA]
    by (cases "calculateCompatibilityScore fruitB fruitA") simp_all
  show ?thesis
    by (simp add: calculateMutualScore_def Let_def assms(1) r)
qed

text \<open>
  Claim C7, at an input where it fails. The candidate's directional score for the seeker
  is 0, the seeker's directional score for the candidate is NaN, and the mutual score is
  NaN, not 0, in both argument orders.
\<close>

theorem zero_direction_with_NaN:
  "calculateCompatibilityScore orangeDemanding exactSeeker = Fin 0
   \<and> calculateCompatibilityScore exactSeeker orangeDemanding = NaN
   \<and> calculateMutualScore exactSeeker orangeDemanding = NaN
   \<and> calculateMutualScore orangeDemanding exactSeeker = NaN"
  by (simp add: calculateMutualScore_def Let_def ccs_exact_demanding ccs_demanding_exact)

section \<open>The ranker\<close>

text \<open>
  The sort returns a permutation of its input, whatever the comparison function does.
\<close>

lemma extend_run_append:
  "extend_run d comparefn prev xs = (run, rest) \<Longrightarrow> run @ rest = xs"
  by (induction xs arbitrary: prev run rest) (auto split: if_splits prod.splits)

lemma mset_count_and_make_run:
  "count_and_make_run comparefn xs = (run, rest) \<Longrightarrow> mset run + mset rest = mset xs"
proof (induction comparefn xs rule: count_and_make_run.induct)
  case (3 comparefn elementHigh elementLow rest')
  obtain r remaining where e: "extend_run (sorts_before comparefn elementLow elementHigh) comparefn elementLow rest' = (r, remaining)"
    by (cases "extend_run (sorts_before comparefn elementLow elementHigh) comparefn elementLow rest'")
  have "mset r + mset remaining = mset rest'"
    using extend_run_append [OF e] by (metis mset_append)
  then show ?case using 3 e by (auto simp: Let_def split: if_splits)
qed auto

lemma mset_binary_insert: "mset (binary_insert comparefn xs pivot) = add_mset pivot (mset xs)"
proof -
  have "mset (take k xs) + mset (drop k xs) = mset xs" for k
    by (metis append_take_drop_id mset_append)
  then show ?thesis by (simp add: binary_insert_def Let_def)
qed

lemma mset_foldl_binary_insert:
  "mset (foldl (binary_insert comparefn) run rest) = mset run + mset rest"
  by (induction rest arbitrary: run) (simp_all add: mset_binary_insert)

lemma mset_array_sort: "mset (array_sort comparefn xs) = mset xs"
proof -
  obtain run rest where c: "count_and_make_run comparefn xs = (run, rest)"
    by (cases "count_and_make_run comparefn xs")
  then show ?thesis
    using mset_count_and_make_run [OF c] by (simp add: array_sort_def mset_foldl_binary_insert)
qed

lemma set_array_sort: "set (array_sort comparefn xs) = set xs"
  using mset_array_sort [of comparefn xs] by (metis set_mset_mset)

lemma length_array_sort: "length (array_sort comparefn xs) = length xs"
  using mset_array_sort [of comparefn xs] by (metis size_mset)

lemma set_array_slice0: "set (array_slice0 xs n) \<subseteq> set xs"
  by (simp add: array_slice0_def set_take_subset)

lemma scoredMatch_fruit: "fruit (scoredMatch seeker candidate) = candidate"
  by (simp add: scoredMatch_def Let_def)

lemma scoredMatch_mutualScore:
  "mutualScore (scoredMatch seeker candidate) = calculateMutualScore seeker candidate"
  by (simp only: scoredMatch_def calculateMutualScore_def Let_def Match.simps)

lemmas sample_mutual = scoredMatch_mutualScore mutual_exact_unknown mutual_exact_stemless
  mutual_exact_atPoint mutual_exact_demanding

lemma findTopMatches_subset:
  "set (findTopMatches seeker candidates limit) \<subseteq> scoredMatch seeker ` set candidates"
  using set_array_slice0 [of "array_sort byMutualScore (map (scoredMatch seeker) candidates)" limit]
  by (simp add: findTopMatches_def Let_def set_array_sort)

lemma findTopMatches_single:
  "findTopMatches exactSeeker [orangeUnknown] 1 = [scoredMatch exactSeeker orangeUnknown]"
  by (simp add: findTopMatches_def Let_def array_sort_def array_slice0_def)

text \<open>
  Claim C8. The mutual score that \<^verbatim>\<open>findTopMatches\<close> computes inline for a candidate
  (square root of the product of the two unrounded directional scores, rounded to one
  decimal) is the value of \<^verbatim>\<open>calculateMutualScore\<close> on the seeker and that candidate,
  and every record that \<^verbatim>\<open>findTopMatches\<close> returns carries it.
\<close>

theorem ranker_uses_mutual_score:
  "mutualScore (scoredMatch seeker candidate) = calculateMutualScore seeker candidate
   \<and> (\<forall>m \<in> set (findTopMatches seeker candidates limit).
         fruit m \<in> set candidates \<and> mutualScore m = calculateMutualScore seeker (fruit m))"
proof (intro conjI ballI)
  show "mutualScore (scoredMatch seeker candidate) = calculateMutualScore seeker candidate"
    by (rule scoredMatch_mutualScore)
next
  fix m
  assume "m \<in> set (findTopMatches seeker candidates limit)"
  then obtain c where c: "c \<in> set candidates" "m = scoredMatch seeker c"
    using findTopMatches_subset by blast
  show "fruit m \<in> set candidates"
    using c by (simp add: scoredMatch_fruit)
  show "mutualScore m = calculateMutualScore seeker (fruit m)"
    using c by (simp add: scoredMatch_fruit scoredMatch_mutualScore)
qed

theorem ranker_uses_mutual_score_witness:
  "scoredMatch exactSeeker orangeUnknown \<in> set (findTopMatches exactSeeker [orangeUnknown] 1)
   \<and> fruit (scoredMatch exactSeeker orangeUnknown) \<in> set [orangeUnknown]
   \<and> mutualScore (scoredMatch exactSeeker orangeUnknown)
       = calculateMutualScore exactSeeker (fruit (scoredMatch exactSeeker orangeUnknown))"
proof -
  have h: "scoredMatch exactSeeker orangeUnknown \<in> set (findTopMatches exactSeeker [orangeUnknown] 1)"
    by (simp add: findTopMatches_single)
  show ?thesis
    using h ranker_uses_mutual_score [of exactSeeker orangeUnknown "[orangeUnknown]" 1]
    by blast
qed

text \<open>
  Claim C1, at an input where it fails. The seeker's size preference has min = max = 5 and
  the candidate's size is 5: the directional score, the mutual score and the mutual
  score in the match record are NaN, which is not in [0, 100].
\<close>

theorem score_out_of_range_at_degenerate_range:
  "calculateCompatibilityScore exactSeeker orangeAtPoint = NaN
   \<and> \<not> in_score_range (calculateCompatibilityScore exactSeeker orangeAtPoint)
   \<and> calculateMutualScore exactSeeker orangeAtPoint = NaN
   \<and> \<not> in_score_range (calculateMutualScore exactSeeker orangeAtPoint)
   \<and> mutualScore (scoredMatch exactSeeker orangeAtPoint) = NaN"
  by (simp add: sample_mutual ccs_exact_atPoint)

text \<open>
  Claim C2, at an input where it fails. The seeker wants a size of exactly 5; the second
  of three candidates has that size, so its mutual score is NaN. Every comparison with it
  yields NaN, the sort leaves the input order, and a match with mutual score 25 is ranked
  before one with mutual score 50.
\<close>

theorem ranking_breaks_on_NaN:
  "map mutualScore (findTopMatches exactSeeker [orangeStemless, orangeAtPoint, orangeUnknown] 3)
     = [Fin 25, NaN, Fin 50]
   \<and> \<not> sorted_wrt (\<lambda>a b. num_ge (mutualScore a) (mutualScore b))
         (findTopMatches exactSeeker [orangeStemless, orangeAtPoint, orangeUnknown] 3)"
proof -
  have r: "findTopMatches exactSeeker [orangeStemless, orangeAtPoint, orangeUnknown] 3
      = [scoredMatch exactSeeker orangeStemless, scoredMatch exactSeeker orangeAtPoint,
         scoredMatch exactSeeker orangeUnknown]"
    by (simp add: findTopMatches_def Let_def array_sort_def array_slice0_def sorts_before_def
        byMutualScore_def sample_mutual num_sub_def)
  show ?thesis
    by (simp add: r sample_mutual num_ge_def)
qed

text \<open>
  A second list with a NaN score: the first two scores, 0 and 25, form a strictly
  descending run in the order of the comparison function and are reversed; the NaN score
  stays behind them, and the score 50 is inserted at the front.
\<close>

lemma mutual_exact_hopeless: "calculateMutualScore exactSeeker orangeHopeless = Fin 0"
proof -
  have a: "calculateCompatibilityScore exactSeeker orangeHopeless = Fin 50"
    by (simp add: fruit_defs orangeHopeless_def score_defs del: not_None_eq)
  have b: "calculateCompatibilityScore orangeHopeless exactSeeker = Fin 0"
    by (simp add: fruit_defs orangeHopeless_def score_defs del: not_None_eq)
  show ?thesis by (simp add: calculateMutualScore_def Let_def a b)
qed

lemma ranking_with_NaN_after_descending_run:
  "map mutualScore
     (findTopMatches exactSeeker [orangeHopeless, orangeStemless, orangeAtPoint, orangeUnknown] 4)
   = [Fin 50, Fin 25, Fin 0, NaN]"
proof -
  have "findTopMatches exactSeeker [orangeHopeless, orangeStemless, orangeAtPoint, orangeUnknown] 4
      = [scoredMatch exactSeeker orangeUnknown, scoredMatch exactSeeker orangeStemless,
         scoredMatch exactSeeker orangeHopeless, scoredMatch exactSeeker orangeAtPoint]"
    by (simp add: findTopMatches_def Let_def array_sort_def array_slice0_def sorts_before_def
        binary_insert_def insertion_point.simps
        byMutualScore_def sample_mutual mutual_exact_hopeless num_sub_def)
  then show ?thesis by (simp add: sample_mutual mutual_exact_hopeless)
qed

subsection \<open>Sorting with a consistent comparison function\<close>

text \<open>
  When the comparison function puts one element strictly before another exactly when
  its key is smaller, the run at the start is the stable sort of the elements it covers,
  the binary search finds the place behind the elements with a key that is not greater,
  and the whole sort is the stable insertion sort of the library.
\<close>

lemma extend_run_descending:
  assumes "extend_run True comparefn prev xs = (run, rest)"
    and "\<forall>a \<in> set (prev # xs). \<forall>b \<in> set (prev # xs). sorts_before comparefn a b \<longleftrightarrow> f a < f b"
  shows "sorted_wrt (\<lambda>a b. f b < (f a :: real)) (prev # run)"
  using assms
proof (induction xs arbitrary: prev run rest)
  case Nil
  then show ?case by simp
next
  case (Cons x xs)
  show ?case
  proof (cases "sorts_before comparefn x prev")
    case True
    obtain r' where r': "extend_run True comparefn x xs = (r', rest)" "run = x # r'"
      using Cons.prems(1) True by (auto split: prod.splits)
    have "sorted_wrt (\<lambda>a b. f b < f a) (x # r')"
      using Cons.IH [OF r'(1)] Cons.prems(2) by simp
    moreover have "f x < f prev" using True Cons.prems(2) by simp
    ultimately show ?thesis using r'(2) by fastforce
  next
    case False
    then show ?thesis using Cons.prems(1) by simp
  qed
qed

lemma extend_run_ascending:
  assumes "extend_run False comparefn prev xs = (run, rest)"
    and "\<forall>a \<in> set (prev # xs). \<forall>b \<in> set (prev # xs). sorts_before comparefn a b \<longleftrightarrow> f a < f b"
  shows "sorted_wrt (\<lambda>a b. f a \<le> (f b :: real)) (prev # run)"
  using assms
proof (induction xs arbitrary: prev run rest)
  case Nil
  then show ?case by simp
next
  case (Cons x xs)
  show ?case
  proof (cases "sorts_before comparefn x prev")
    case False
    obtain r' where r': "extend_run False comparefn x xs = (r', rest)" "run = x # r'"
      using Cons.prems(1) False by (auto split: prod.splits)
    have "sorted_wrt (\<lambda>a b. f a \<le> f b) (x # r')"
      using Cons.IH [OF r'(1)] Cons.prems(2) by simp
    moreover have "f prev \<le> f x" using False Cons.prems(2) by (simp add: not_less)
    ultimately show ?thesis using r'(2) by fastforce
  next
    case True
    then show ?thesis using Cons.prems(1) by simp
  qed
qed

lemma filter_distinct_key:
  "distinct (map f xs) \<Longrightarrow> length (filter (\<lambda>x. f k = f x) xs) \<le> 1"
  by (induction xs) (auto simp: filter_empty_conv)

lemma rev_short: "length xs \<le> 1 \<Longrightarrow> rev xs = xs"
  by (cases xs) auto

lemma sort_key_strictly_descending:
  assumes "sorted_wrt (\<lambda>a b. f b < (f a :: real)) xs"
  shows "sort_key f xs = rev xs"
proof (rule properties_for_sort_key)
  show "mset (rev xs) = mset xs" by simp
  have "sorted_wrt (\<lambda>a b. f a < f b) (rev xs)"
    using assms by (simp add: sorted_wrt_rev)
  then have s: "sorted_wrt (<) (map f (rev xs))"
    by (simp add: sorted_wrt_map)
  then show "sorted (map f (rev xs))"
    by (rule strict_sorted_imp_sorted)
  have "distinct (map f (rev xs))" using s by (simp only: strict_sorted_iff)
  then have d: "distinct (map f xs)" by (simp add: rev_map [symmetric])
  show "filter (\<lambda>x. f k = f x) (rev xs) = filter (\<lambda>x. f k = f x) xs" for k
    using filter_distinct_key [OF d, of k] by (simp add: rev_filter [symmetric] rev_short)
qed

lemma sort_key_ascending:
  assumes "sorted_wrt (\<lambda>a b. f a \<le> (f b :: real)) xs"
  shows "sort_key f xs = xs"
  using assms by (intro sort_key_id_if_sorted) (simp add: sorted_wrt_map)

lemma count_and_make_run_sorted:
  assumes "count_and_make_run comparefn xs = (run, rest)"
    and "\<forall>a \<in> set xs. \<forall>b \<in> set xs. sorts_before comparefn a b \<longleftrightarrow> f a < (f b :: real)"
  shows "\<exists>pre. pre @ rest = xs \<and> run = sort_key f pre"
proof -
  consider "xs = []" | x where "xs = [x]" | hi lo tl where "xs = hi # lo # tl"
    by (cases xs rule: remdups_adj.cases) auto
  then show ?thesis
  proof cases
  case 1
  then show ?thesis using assms(1) by simp
next
  case (2 x)
  then show ?thesis using assms(1) by auto
next
  case (3 hi lo tl)
  let ?d = "sorts_before comparefn lo hi"
  obtain r remaining where e: "extend_run ?d comparefn lo tl = (r, remaining)"
    by (cases "extend_run ?d comparefn lo tl")
  have app: "r @ remaining = tl" using e by (rule extend_run_append)
  have rest: "rest = remaining" and run: "run = (if ?d then rev (hi # lo # r) else hi # lo # r)"
    using assms(1) e by (simp_all add: 3 Let_def)
  have cons: "\<forall>a \<in> set (lo # tl). \<forall>b \<in> set (lo # tl). sorts_before comparefn a b \<longleftrightarrow> f a < f b"
    using assms(2) by (simp add: 3)
  have hl: "?d \<longleftrightarrow> f lo < f hi" using assms(2) by (simp add: 3)
  have pre: "(hi # lo # r) @ rest = xs" using app rest by (simp add: 3)
  show ?thesis
  proof (cases ?d)
    case True
    have "sorted_wrt (\<lambda>a b. f b < f a) (lo # r)"
      using e cons True by (intro extend_run_descending [of comparefn lo tl r remaining]) simp_all
    then have "sorted_wrt (\<lambda>a b. f b < f a) (hi # lo # r)"
      using True hl by fastforce
    then have "sort_key f (hi # lo # r) = rev (hi # lo # r)"
      by (rule sort_key_strictly_descending)
    then show ?thesis using pre run True by metis
  next
    case False
    have "sorted_wrt (\<lambda>a b. f a \<le> f b) (lo # r)"
      using e cons False by (intro extend_run_ascending [of comparefn lo tl r remaining]) simp_all
    then have "sorted_wrt (\<lambda>a b. f a \<le> f b) (hi # lo # r)"
      using False hl by fastforce
    then have "sort_key f (hi # lo # r) = hi # lo # r"
      by (rule sort_key_ascending)
    then show ?thesis using pre run False by metis
  qed
qed
qed

lemma insertion_point_spec:
  assumes "sorted (map f ys)" "right \<le> length ys"
    and "\<forall>i<left. f (ys ! i) \<le> f pivot"
    and "\<forall>i. right \<le> i \<and> i < length ys \<longrightarrow> f pivot < f (ys ! i)"
    and "\<forall>y \<in> set ys. sorts_before comparefn pivot y \<longleftrightarrow> f pivot < (f y :: real)"
  shows "insertion_point comparefn pivot ys left right \<le> max left right
       \<and> (\<forall>i<insertion_point comparefn pivot ys left right. f (ys ! i) \<le> f pivot)
       \<and> (\<forall>i. insertion_point comparefn pivot ys left right \<le> i \<and> i < length ys
              \<longrightarrow> f pivot < f (ys ! i))"
  using assms
proof (induction comparefn pivot ys left right rule: insertion_point.induct)
  case (1 comparefn pivot xs left right)
  show ?case
  proof (cases "left < right")
    case False
    then show ?thesis
      using "1.prems" by (simp add: insertion_point.simps [of comparefn pivot xs left right])
  next
    case True
    define mid where "mid = left + (right - left) div 2"
    have mid: "left \<le> mid" "mid < right" "mid < length xs"
      using True "1.prems"(2) by (simp_all add: mid_def)
    have cmp: "sorts_before comparefn pivot (xs ! mid) \<longleftrightarrow> f pivot < f (xs ! mid)"
      using "1.prems"(5) mid(3) by simp
    have mono: "f (xs ! i) \<le> f (xs ! j)" if "i \<le> j" "j < length xs" for i j
      using "1.prems"(1) that by (simp add: sorted_iff_nth_mono)
    show ?thesis
    proof (cases "sorts_before comparefn pivot (xs ! mid)")
      case before: True
      have above: "\<forall>i. mid \<le> i \<and> i < length xs \<longrightarrow> f pivot < f (xs ! i)"
        using before cmp mono mid(3) by (meson less_le_trans)
      have "insertion_point comparefn pivot xs left mid \<le> max left mid
         \<and> (\<forall>i<insertion_point comparefn pivot xs left mid. f (xs ! i) \<le> f pivot)
         \<and> (\<forall>i. insertion_point comparefn pivot xs left mid \<le> i \<and> i < length xs
                \<longrightarrow> f pivot < f (xs ! i))"
        using "1.IH"(1) [OF True mid_def before "1.prems"(1) _ "1.prems"(3) above "1.prems"(5)] mid
        by simp
      moreover have "insertion_point comparefn pivot xs left right = insertion_point comparefn pivot xs left mid"
        using True before
        by (simp add: insertion_point.simps [of comparefn pivot xs left right] mid_def Let_def)
      ultimately show ?thesis using mid by (simp add: max_def)
    next
      case after: False
      have below: "\<forall>i<mid + 1. f (xs ! i) \<le> f pivot"
      proof (intro allI impI)
        fix i assume "i < mid + 1"
        then have "f (xs ! i) \<le> f (xs ! mid)" using mono [of i mid] mid(3) by simp
        moreover have "f (xs ! mid) \<le> f pivot" using after cmp by (simp add: not_less)
        ultimately show "f (xs ! i) \<le> f pivot" by simp
      qed
      have "insertion_point comparefn pivot xs (mid + 1) right \<le> max (mid + 1) right
         \<and> (\<forall>i<insertion_point comparefn pivot xs (mid + 1) right. f (xs ! i) \<le> f pivot)
         \<and> (\<forall>i. insertion_point comparefn pivot xs (mid + 1) right \<le> i \<and> i < length xs
                \<longrightarrow> f pivot < f (xs ! i))"
        using "1.IH"(2) [OF True mid_def after "1.prems"(1) "1.prems"(2) below "1.prems"(4) "1.prems"(5)]
        by simp
      moreover have "insertion_point comparefn pivot xs left right = insertion_point comparefn pivot xs (mid + 1) right"
        using True after
        by (simp add: insertion_point.simps [of comparefn pivot xs left right] mid_def Let_def)
      ultimately show ?thesis using mid by (simp add: max_def)
    qed
  qed
qed

lemma binary_insert_sort_key:
  assumes "\<forall>y \<in> set pre. sorts_before comparefn pivot y \<longleftrightarrow> f pivot < (f y :: real)"
  shows "binary_insert comparefn (sort_key f pre) pivot = sort_key f (pre @ [pivot])"
proof -
  let ?ys = "sort_key f pre"
  define k where "k = insertion_point comparefn pivot ?ys 0 (length ?ys)"
  have spec: "k \<le> length ?ys" "\<forall>i<k. f (?ys ! i) \<le> f pivot"
    "\<forall>i. k \<le> i \<and> i < length ?ys \<longrightarrow> f pivot < f (?ys ! i)"
    using insertion_point_spec [of f ?ys "length ?ys" 0 pivot comparefn] assms
    by (simp_all add: k_def)
  have low: "\<forall>x \<in> set (take k ?ys). f x \<le> f pivot"
    using spec(1,2) by (auto simp: in_set_conv_nth)
  have high: "\<forall>x \<in> set (drop k ?ys). f pivot < f x"
    using spec(1,3) by (auto simp: in_set_conv_nth)
  have s: "sorted (map f (take k ?ys @ drop k ?ys))" by simp
  have split: "take k ?ys @ drop k ?ys = ?ys" by simp
  have res: "binary_insert comparefn ?ys pivot = take k ?ys @ pivot # drop k ?ys"
    by (simp add: binary_insert_def k_def Let_def)
  have "sort_key f (pre @ [pivot]) = take k ?ys @ pivot # drop k ?ys"
  proof (rule properties_for_sort_key)
    show "mset (take k ?ys @ pivot # drop k ?ys) = mset (pre @ [pivot])"
      using mset_binary_insert [of comparefn ?ys pivot] by (simp add: res)
    show "sorted (map f (take k ?ys @ pivot # drop k ?ys))"
      using s low high by (auto simp: sorted_append less_imp_le simp del: append_take_drop_id)
    fix x
    have st: "filter (\<lambda>y. f x = f y) ?ys = filter (\<lambda>y. f x = f y) pre"
      using sort_key_stable [of f "f x" pre] by (simp add: eq_commute)
    have "filter (\<lambda>y. f x = f y) (take k ?ys) @ filter (\<lambda>y. f x = f y) (drop k ?ys)
        = filter (\<lambda>y. f x = f y) pre"
      using st by (metis filter_append split)
    moreover have "f x = f pivot \<Longrightarrow> filter (\<lambda>y. f x = f y) (drop k ?ys) = []"
      using high by (auto simp: filter_empty_conv)
    ultimately show "filter (\<lambda>y. f x = f y) (take k ?ys @ pivot # drop k ?ys)
        = filter (\<lambda>y. f x = f y) (pre @ [pivot])"
      by auto
  qed
  then show ?thesis by (simp add: res)
qed

lemma foldl_binary_insert_sort_key:
  assumes "\<forall>a \<in> set (pre @ rest). \<forall>b \<in> set (pre @ rest). sorts_before comparefn a b \<longleftrightarrow> f a < (f b :: real)"
  shows "foldl (binary_insert comparefn) (sort_key f pre) rest = sort_key f (pre @ rest)"
  using assms
proof (induction rest arbitrary: pre)
  case Nil
  show ?case by simp
next
  case (Cons x rest)
  have "binary_insert comparefn (sort_key f pre) x = sort_key f (pre @ [x])"
    using Cons.prems by (intro binary_insert_sort_key) simp
  moreover have "foldl (binary_insert comparefn) (sort_key f (pre @ [x])) rest = sort_key f ((pre @ [x]) @ rest)"
    using Cons.prems by (intro Cons.IH) simp
  ultimately show ?case by simp
qed

lemma array_sort_sort_key:
  assumes "\<forall>a \<in> set xs. \<forall>b \<in> set xs. sorts_before comparefn a b \<longleftrightarrow> f a < (f b :: real)"
  shows "array_sort comparefn xs = sort_key f xs"
proof -
  obtain run rest where c: "count_and_make_run comparefn xs = (run, rest)"
    by (cases "count_and_make_run comparefn xs")
  obtain pre where pre: "pre @ rest = xs" "run = sort_key f pre"
    using count_and_make_run_sorted [OF c assms] by blast
  show ?thesis
    using foldl_binary_insert_sort_key [of pre rest comparefn f] assms pre
    by (simp add: array_sort_def c)
qed

subsection \<open>Ranking of matches whose scores are numbers\<close>

text \<open>
  A mutual score that is a number is a whole number of tenths. When every mutual score is
  a number, the result is sorted by descending score, a permutation of the scored
  candidates, and keeps the input order among equal scores. The bounds on the length
  hold for every input.
\<close>

lemma tenth_fin:
  fixes n :: int
  assumes "fin (of_int n / 10) = Fin e"
  shows "e = of_int n / 10"
proof (cases "of_int n / 10 :: real" rule: fin_cases)
  case overflow
  then show ?thesis using assms by (simp add: inf_of_sign_def split: if_splits)
next
  case underflow
  then have e: "e = 0" using assms by simp
  have "\<bar>of_int n :: real\<bar> < 1" using underflow(1) bounds_order by simp
  then have "n = 0" by linarith
  then show ?thesis using e by simp
next
  case exact
  then show ?thesis using assms by simp
qed

lemma mutual_decimal:
  assumes "calculateMutualScore seeker c \<noteq> NaN"
  shows "\<exists>n. calculateMutualScore seeker c = Fin (of_int n / 10)"
proof -
  let ?y = "num_mul (Math_sqrt (num_mul (calculateCompatibilityScore seeker c)
                (calculateCompatibilityScore c seeker))) (Fin 10)"
  have m: "calculateMutualScore seeker c = num_div (Math_round ?y) (Fin 10)"
    by (simp add: calculateMutualScore_def Let_def)
  have "in_score_range (calculateMutualScore seeker c)"
    using assms mutual_range [of seeker c] by simp
  then obtain e where e: "num_div (Math_round ?y) (Fin 10) = Fin e"
    unfolding m by (cases "num_div (Math_round ?y) (Fin 10)") simp_all
  then obtain n :: int where "fin (of_int n / 10) = Fin e"
    by (cases ?y) (auto simp: inf_of_sign_def)
  then have "e = of_int n / 10" by (rule tenth_fin)
  then show ?thesis using e m by auto
qed

lemma byMutualScore_decimal:
  assumes "mutualScore a = Fin (of_int i / 10)" "mutualScore b = Fin (of_int j / 10)"
  shows "sorts_before byMutualScore a b \<longleftrightarrow> - score_value a < - score_value b"
proof -
  have d: "(of_int j / 10 + - (of_int i / 10) :: real) = of_int (j - i) / 10" by simp
  have "num_lt (fin (of_int (j - i) / 10)) (Fin 0) \<longleftrightarrow> j < i"
  proof (cases "of_int (j - i) / 10 :: real" rule: fin_cases)
    case overflow
    have "0 < overflow_bound" using bounds_order by simp
    then show ?thesis using overflow by (auto simp: inf_of_sign_def)
  next
    case underflow
    have "\<bar>of_int (j - i) :: real\<bar> < 1" using underflow(1) bounds_order by simp
    then have "j - i = 0" by linarith
    then show ?thesis using underflow by simp
  next
    case exact
    then show ?thesis by simp
  qed
  moreover have "byMutualScore a b = fin (of_int (j - i) / 10)"
    unfolding byMutualScore_def num_sub_def assms num_neg.simps num_add.simps d ..
  ultimately show ?thesis
    by (simp add: sorts_before_def assms score_value_def)
qed

lemma findTopMatches_length:
  "length (findTopMatches seeker candidates limit) \<le> length candidates"
  "0 \<le> limit \<Longrightarrow> length (findTopMatches seeker candidates limit) \<le> nat limit"
  "findTopMatches seeker [] limit = []"
proof -
  show "length (findTopMatches seeker candidates limit) \<le> length candidates"
    by (auto simp: findTopMatches_def Let_def array_slice0_def length_array_sort)
  show "0 \<le> limit \<Longrightarrow> length (findTopMatches seeker candidates limit) \<le> nat limit"
    by (simp add: findTopMatches_def Let_def array_slice0_def length_array_sort)
  show "findTopMatches seeker [] limit = []"
    by (simp add: findTopMatches_def Let_def array_slice0_def array_sort_def)
qed

lemma sorted_by_score:
  assumes "\<forall>m \<in> set xs. mutualScore m = Fin (score_value m)"
    and "sorted (map (\<lambda>m. - score_value m) xs)"
  shows "sorted_wrt (\<lambda>a b. num_ge (mutualScore a) (mutualScore b)) xs"
  using assms
proof (induction xs)
  case Nil
  show ?case by simp
next
  case (Cons x xs)
  then show ?case by (auto simp: num_ge_def)
qed

lemma filter_by_score:
  assumes "\<forall>m \<in> set xs. mutualScore m = Fin (score_value m)"
  shows "filter (\<lambda>m. mutualScore m = Fin r) xs = filter (\<lambda>m. - score_value m = - r) xs"
  using assms by (intro filter_cong) auto

lemma filter_not_a_score:
  assumes "\<forall>m \<in> set xs. mutualScore m = Fin (score_value m)" and "\<not> is_finite k"
  shows "filter (\<lambda>m. mutualScore m = k) xs = []"
  using assms by (auto simp: filter_empty_conv is_finite_def)

lemma findTopMatches_ranked:
  assumes "0 \<le> limit"
    and "\<forall>c \<in> set candidates. calculateMutualScore seeker c \<noteq> NaN"
  shows "\<exists>ranked. findTopMatches seeker candidates limit = take (nat limit) ranked
           \<and> mset ranked = mset (map (scoredMatch seeker) candidates)
           \<and> sorted_wrt (\<lambda>a b. num_ge (mutualScore a) (mutualScore b)) ranked
           \<and> (\<forall>k. filter (\<lambda>m. mutualScore m = k) ranked
                  = filter (\<lambda>m. mutualScore m = k) (map (scoredMatch seeker) candidates))"
proof -
  let ?scored = "map (scoredMatch seeker) candidates"
  let ?f = "\<lambda>m. - score_value m"
  have dec: "\<forall>m \<in> set ?scored. \<exists>n. mutualScore m = Fin (of_int n / 10)"
    using assms(2) by (auto simp: scoredMatch_mutualScore mutual_decimal)
  then have fin: "\<forall>m \<in> set ?scored. mutualScore m = Fin (score_value m)"
    by (auto simp: score_value_def)
  have "\<forall>a \<in> set ?scored. \<forall>b \<in> set ?scored. sorts_before byMutualScore a b \<longleftrightarrow> ?f a < ?f b"
    using dec byMutualScore_decimal by blast
  then have eq: "array_sort byMutualScore ?scored = sort_key ?f ?scored"
    by (rule array_sort_sort_key)
  have fin': "\<forall>m \<in> set (sort_key ?f ?scored). mutualScore m = Fin (score_value m)"
    using fin by simp
  have top: "findTopMatches seeker candidates limit = take (nat limit) (sort_key ?f ?scored)"
    using assms(1) by (simp add: findTopMatches_def Let_def array_slice0_def eq)
  have srt: "sorted_wrt (\<lambda>a b. num_ge (mutualScore a) (mutualScore b)) (sort_key ?f ?scored)"
    by (rule sorted_by_score [OF fin']) (rule sorted_sort_key)
  have stable: "filter (\<lambda>m. mutualScore m = k) (sort_key ?f ?scored) = filter (\<lambda>m. mutualScore m = k) ?scored" for k
  proof (cases k)
    case (Fin r)
    show ?thesis
      unfolding Fin filter_by_score [OF fin'] filter_by_score [OF fin]
      by (rule sort_key_stable)
  qed (simp_all add: filter_not_a_score [OF fin'] filter_not_a_score [OF fin] is_finite_def)
  show ?thesis
    using top srt stable by (intro exI [of _ "sort_key ?f ?scored"]) simp
qed

section \<open>The scenarios of the repository's tests\<close>

text \<open>
  The model agrees with the repository's tests: the good match scores above 60, the poor
  match below 40, and the three oranges are ranked by descending mutual score, also when
  the list is cut to two.
\<close>

lemmas test_defs = emptyPreferences_def appleWithPreferences_def orangeGoodMatch_def
  orangePoorMatch_def orangePerfectMatch_def

lemma test_good_match:
  "num_gt (calculateCompatibilityScore appleWithPreferences orangeGoodMatch) (Fin 60)"
  by (simp add: test_defs score_defs del: not_None_eq)

lemma test_poor_match:
  "num_lt (calculateCompatibilityScore appleWithPreferences orangePoorMatch) (Fin 40)"
  by (simp add: test_defs score_defs del: not_None_eq)

lemma round_sqrt:
  fixes x :: real
  assumes "(of_int z - 1 / 2)\<^sup>2 \<le> 100 * x" "100 * x < (of_int z + 1 / 2)\<^sup>2" "0 \<le> z"
  shows "\<lfloor>sqrt x * 10 + 1 / 2\<rfloor> = z"
proof (rule floor_unique)
  have s: "sqrt (100 * x) = sqrt x * 10"
    by (simp add: real_sqrt_mult)
  have "of_int z - 1 / 2 \<le> sqrt (100 * x)"
    using assms(1) by (rule real_le_rsqrt)
  then show "of_int z \<le> sqrt x * 10 + 1 / 2" by (simp add: s)
  have "sqrt (100 * x) < of_int z + 1 / 2"
    using assms(2,3) by (intro real_less_lsqrt) simp_all
  then show "sqrt x * 10 + 1 / 2 < of_int z + 1" by (simp add: s)
qed

lemma sqrt_times_ten_moderate:
  assumes "1 \<le> x" "x \<le> 10000"
  shows "fin (sqrt x * 10) = Fin (sqrt x * 10)"
proof -
  have "sqrt 1 \<le> sqrt x" "sqrt x \<le> sqrt (100 * 100)"
    using assms by (simp_all only: real_sqrt_le_iff)
  then have b: "1 \<le> sqrt x" "sqrt x \<le> 100" by simp_all
  then have "\<bar>sqrt x * 10\<bar> = sqrt x * 10" by simp
  moreover have "1 / 1000000 \<le> sqrt x * 10" "sqrt x * 10 \<le> 1000000" using b by linarith+
  ultimately show ?thesis by (intro fin_moderate) simp_all
qed

lemma test_mutual_scores:
  "calculateMutualScore appleWithPreferences orangeGoodMatch = Fin (887 / 10)"
  "calculateMutualScore appleWithPreferences orangePerfectMatch = Fin (696 / 10)"
  "calculateMutualScore appleWithPreferences orangePoorMatch = Fin 0"
proof -
  have g: "calculateCompatibilityScore appleWithPreferences orangeGoodMatch = Fin (393 / 4)"
    "calculateCompatibilityScore orangeGoodMatch appleWithPreferences = Fin 80"
    by (simp_all add: test_defs score_defs del: not_None_eq)
  have p: "calculateCompatibilityScore appleWithPreferences orangePerfectMatch = Fin 97"
    "calculateCompatibilityScore orangePerfectMatch appleWithPreferences = Fin 50"
    by (simp_all add: test_defs score_defs del: not_None_eq)
  have q: "calculateCompatibilityScore appleWithPreferences orangePoorMatch = Fin 0"
    "calculateCompatibilityScore orangePoorMatch appleWithPreferences = Fin 25"
    by (simp_all add: test_defs score_defs del: not_None_eq)
  have "\<lfloor>sqrt 7860 * 10 + 1 / 2\<rfloor> = 887"
    by (rule round_sqrt) (simp_all add: power2_eq_square)
  then show "calculateMutualScore appleWithPreferences orangeGoodMatch = Fin (887 / 10)"
    using sqrt_times_ten_moderate [of 7860]
    by (simp add: calculateMutualScore_def Let_def g)
  have "\<lfloor>sqrt 4850 * 10 + 1 / 2\<rfloor> = 696"
    by (rule round_sqrt) (simp_all add: power2_eq_square)
  then show "calculateMutualScore appleWithPreferences orangePerfectMatch = Fin (696 / 10)"
    using sqrt_times_ten_moderate [of 4850]
    by (simp add: calculateMutualScore_def Let_def p)
  show "calculateMutualScore appleWithPreferences orangePoorMatch = Fin 0"
    by (simp add: calculateMutualScore_def Let_def q)
qed

lemmas test_mutual = scoredMatch_mutualScore test_mutual_scores

lemma test_sorted_results:
  "findTopMatches appleWithPreferences [orangePoorMatch, orangeGoodMatch, orangePerfectMatch] 3
     = [scoredMatch appleWithPreferences orangeGoodMatch,
        scoredMatch appleWithPreferences orangePerfectMatch,
        scoredMatch appleWithPreferences orangePoorMatch]"
  by (simp add: findTopMatches_def Let_def array_sort_def array_slice0_def sorts_before_def
      binary_insert_def insertion_point.simps byMutualScore_def test_mutual num_sub_def)

lemma test_limits_results:
  "findTopMatches appleWithPreferences [orangePoorMatch, orangeGoodMatch, orangePerfectMatch] 2
     = [scoredMatch appleWithPreferences orangeGoodMatch,
        scoredMatch appleWithPreferences orangePerfectMatch]"
  by (simp add: findTopMatches_def Let_def array_sort_def array_slice0_def sorts_before_def
      binary_insert_def insertion_point.simps byMutualScore_def test_mutual num_sub_def)

end
